theory Spec2Isabelle
  imports Complex_Main "HOL-Library.Word" "HOL-Library.Signed_Division" "HOL-Library.Sublist"
begin

section \<open>The ping session engine of net-tools\<close>

text \<open>
  The development embeds the WebSocket ping handler of package \<^verbatim>\<open>pkg\<close>. The source file
  holds two listings of the handler: the option-aware one (\<^verbatim>\<open>PingMessage\<close> with optional
  fields, \<^verbatim>\<open>resolvePingOptions\<close>, count, sweep, quiet and flood) and a plain one (address
  only, a report and a liveness check on every tick). The first is embedded in full; of
  the second, the parts that differ (\<^verbatim>\<open>createPongMessage\<close> and the loop of
  \<^verbatim>\<open>PingHandler\<close>) are embedded under the suffix \<open>_plain\<close>.

  Go's \<^verbatim>\<open>int\<close> is taken at its width on the 64-bit targets: a \<open>64 word\<close> whose \<open>+\<close>, \<open>-\<close>
  and \<open>*\<close> wrap, read as a signed number by \<open>sint\<close>. Comparisons of the source are
  comparisons of the signed values.
\<close>

type_synonym go_int = "64 word"

subsection \<open>Constants\<close>

definition defaultCount :: go_int where "defaultCount = 0"
definition defaultWait :: go_int where "defaultWait = 1"
definition defaultTTL :: go_int where "defaultTTL = 64"
definition defaultPacketSize :: go_int where "defaultPacketSize = 56"
definition defaultTimeout :: go_int where "defaultTimeout = 5"
definition defaultWaitTime :: go_int where "defaultWaitTime = 10"
definition defaultTOS :: go_int where "defaultTOS = 0"
definition defaultPreload :: go_int where "defaultPreload = 0"
definition defaultSweepMin :: go_int where "defaultSweepMin = 0"
definition defaultSweepMax :: go_int where "defaultSweepMax = 0"
definition defaultSweepIncr :: go_int where "defaultSweepIncr = 0"

text \<open>The constants of the plain listing that the embedded parts use.\<close>

definition responseBytes_plain :: go_int where "responseBytes_plain = 64"
definition defaultTTL_plain :: go_int where "defaultTTL_plain = 50"
definition dataBytes_plain :: go_int where "dataBytes_plain = 56"

subsection \<open>Messages and options\<close>

text \<open>
  A pointer field of \<^verbatim>\<open>PingMessage\<close> (\<^verbatim>\<open>*bool\<close>, \<^verbatim>\<open>*int\<close>, \<^verbatim>\<open>*string\<close>) is an option:
  \<open>None\<close> is the nil pointer of a key absent from the JSON object.
\<close>

record PingMessage =
  Address :: string
  Adaptive :: "bool option"
  Audible :: "bool option"
  Debug :: "bool option"
  Flood :: "bool option"
  Numeric :: "bool option"
  Quiet :: "bool option"
  Timestamp :: "bool option"
  Verbose :: "bool option"
  Count :: "go_int option"
  SweepMaxSize :: "go_int option"
  SweepMinSize :: "go_int option"
  SweepIncrSize :: "go_int option"
  Wait :: "go_int option"
  Preload :: "go_int option"
  Mask :: "string option"
  TTL :: "go_int option"
  Pattern :: "string option"
  SourceAddr :: "string option"
  PacketSize :: "go_int option"
  Timeout :: "go_int option"
  WaitTime :: "go_int option"
  TOS :: "go_int option"

text \<open>
  \<^verbatim>\<open>PongMessage\<close>: \<open>Timestamp\<close> holds the reading of \<^verbatim>\<open>time.Now()\<close> as a number; \<open>Latency\<close>
  holds the \<^verbatim>\<open>float64\<close> as the real number it denotes (rounding is not modelled, and
  nothing below computes with latencies).
\<close>

record PongMessage =
  Type :: string
  Timestamp :: nat
  Bytes :: go_int
  Sequence :: go_int
  Address :: string
  Latency :: real
  Success :: bool

record PingOptions =
  Count :: go_int
  Wait :: go_int
  TTL :: go_int
  PacketSize :: go_int
  Timeout :: go_int
  WaitTime :: go_int
  TOS :: go_int
  Preload :: go_int
  SweepMinSize :: go_int
  SweepMaxSize :: go_int
  SweepIncrSize :: go_int
  SourceAddr :: string
  Pattern :: string
  Mask :: string
  IsAdaptive :: bool
  IsAudible :: bool
  IsDebug :: bool
  IsFlood :: bool
  IsNumeric :: bool
  IsQuiet :: bool
  HasTimestamp :: bool
  IsVerbose :: bool

subsection \<open>Option resolution\<close>

definition getOrDefault :: "'a option \<Rightarrow> 'a \<Rightarrow> 'a" where
  "getOrDefault v defaultValue = (case v of None \<Rightarrow> defaultValue | Some x \<Rightarrow> x)"

text \<open>
  The errors of \<^verbatim>\<open>validatePingOptions\<close>, one constructor for each \<^verbatim>\<open>fmt.Errorf\<close> of the
  function, in the order of the source; \<open>error_text\<close> gives the message. In
  \<open>validatePingOptions\<close> the two checks that the source nests under
  \<^verbatim>\<open>if opts.SweepMaxSize > 0\<close> each carry that guard.
\<close>

datatype validation_error =
    CountNegative
  | WaitNegative
  | TTLOutOfRange
  | PacketSizeNegative
  | SweepMinNotLess
  | SweepIncrNotPositive
  | TimeoutNotPositive
  | WaitTimeNotPositive
  | TOSOutOfRange

fun error_text :: "validation_error \<Rightarrow> string" where
  "error_text CountNegative = ''count cannot be negative''"
| "error_text WaitNegative = ''wait interval cannot be negative''"
| "error_text TTLOutOfRange = ''TTL must be between 1 and 255''"
| "error_text PacketSizeNegative = ''packet size cannot be negative''"
| "error_text SweepMinNotLess = ''sweep min size must be less than max size''"
| "error_text SweepIncrNotPositive = ''sweep increment size must be positive''"
| "error_text TimeoutNotPositive = ''timeout must be positive''"
| "error_text WaitTimeNotPositive = ''wait time must be positive''"
| "error_text TOSOutOfRange = ''TOS must be between 0 and 255''"

definition validatePingOptions :: "PingOptions \<Rightarrow> validation_error option" where
  "validatePingOptions opts =
    (if sint (PingOptions.Count opts) < 0 then Some CountNegative
     else if sint (PingOptions.Wait opts) < 0 then Some WaitNegative
     else if sint (PingOptions.TTL opts) \<le> 0 \<or> sint (PingOptions.TTL opts) > 255
       then Some TTLOutOfRange
     else if sint (PingOptions.PacketSize opts) < 0 then Some PacketSizeNegative
     else if sint (PingOptions.SweepMaxSize opts) > 0
         \<and> sint (PingOptions.SweepMinSize opts) \<ge> sint (PingOptions.SweepMaxSize opts)
       then Some SweepMinNotLess
     else if sint (PingOptions.SweepMaxSize opts) > 0
         \<and> sint (PingOptions.SweepIncrSize opts) \<le> 0
       then Some SweepIncrNotPositive
     else if sint (PingOptions.Timeout opts) \<le> 0 then Some TimeoutNotPositive
     else if sint (PingOptions.WaitTime opts) \<le> 0 then Some WaitTimeNotPositive
     else if sint (PingOptions.TOS opts) < 0 \<or> sint (PingOptions.TOS opts) > 255
       then Some TOSOutOfRange
     else None)"

text \<open>
  \<^verbatim>\<open>resolvePingOptions\<close> returns the pair of the source: the options and the error. On a
  validation error the options are returned as they were filled in (the caller drops
  them); the error is the validation error wrapped by \<^verbatim>\<open>"invalid ping options: %w"\<close>,
  held here as the validation error itself.
\<close>

definition resolvePingOptions :: "PingMessage \<Rightarrow> PingOptions \<times> validation_error option" where
  "resolvePingOptions msg =
    (let opts = \<lparr>
        PingOptions.Count = getOrDefault (PingMessage.Count msg) defaultCount,
        PingOptions.Wait = getOrDefault (PingMessage.Wait msg) defaultWait,
        PingOptions.TTL = getOrDefault (PingMessage.TTL msg) defaultTTL,
        PingOptions.PacketSize = getOrDefault (PingMessage.PacketSize msg) defaultPacketSize,
        PingOptions.Timeout = getOrDefault (PingMessage.Timeout msg) defaultTimeout,
        PingOptions.WaitTime = getOrDefault (PingMessage.WaitTime msg) defaultWaitTime,
        PingOptions.TOS = getOrDefault (PingMessage.TOS msg) defaultTOS,
        PingOptions.Preload = getOrDefault (PingMessage.Preload msg) defaultPreload,
        PingOptions.SweepMinSize = getOrDefault (PingMessage.SweepMinSize msg) defaultSweepMin,
        PingOptions.SweepMaxSize = getOrDefault (PingMessage.SweepMaxSize msg) defaultSweepMax,
        PingOptions.SweepIncrSize = getOrDefault (PingMessage.SweepIncrSize msg) defaultSweepIncr,
        PingOptions.SourceAddr = getOrDefault (PingMessage.SourceAddr msg) '''',
        PingOptions.Pattern = getOrDefault (PingMessage.Pattern msg) '''',
        PingOptions.Mask = getOrDefault (PingMessage.Mask msg) '''',
        IsAdaptive = getOrDefault (Adaptive msg) False,
        IsAudible = getOrDefault (Audible msg) False,
        IsDebug = getOrDefault (Debug msg) False,
        IsFlood = getOrDefault (Flood msg) False,
        IsNumeric = getOrDefault (Numeric msg) False,
        IsQuiet = getOrDefault (Quiet msg) False,
        HasTimestamp = getOrDefault (PingMessage.Timestamp msg) False,
        IsVerbose = getOrDefault (Verbose msg) False \<rparr>
     in case validatePingOptions opts of
          Some err \<Rightarrow> (opts, Some err)
        | None \<Rightarrow>
            ((if IsFlood opts then opts\<lparr>PingOptions.Wait := 1\<rparr> else opts), None))"

text \<open>\<^verbatim>\<open>strings.HasPrefix\<close> is the prefix order on byte strings.\<close>

definition formatAddress :: "string \<Rightarrow> string" where
  "formatAddress addr =
    (if \<not> prefix ''http://'' addr \<and> \<not> prefix ''https://'' addr
     then ''http://'' @ addr
     else addr)"

subsection \<open>The world of a session\<close>

text \<open>
  What the handler receives from outside, as data. A session is given the outcome of the
  connection upgrade, the outcome of \<^verbatim>\<open>conn.ReadJSON\<close> (\<open>None\<close> when it returns an error) and
  the ticks that \<^verbatim>\<open>ticker.C\<close> delivers; each tick carries the outcomes of the calls that the
  loop body may make during it. The list of ticks is the fuel of the loop: the channel of
  a ticker is never closed, so a handler that has consumed every tick of the list is
  still \<open>Running\<close>, blocked on the channel.
\<close>

record tick_io =
  get_result :: "int option"
  now :: nat
  writeJSON_ok :: bool
  writeControl_ok :: bool

record session_io =
  upgrade_ok :: bool
  readJSON :: "PingMessage option"
  ticks :: "tick_io list"

text \<open>
  The lines written by \<^verbatim>\<open>log.Printf\<close>, with the arguments of the format string, and the
  effects of a session in the order in which the handler performs them. \<open>WriteJSON\<close> and
  \<open>WriteControl\<close> carry whether the write succeeded. \<open>GoPreload\<close> is the start of one
  preload goroutine; what the goroutine does afterwards (one \<^verbatim>\<open>measureLatency\<close> and a log
  line) runs concurrently, touches neither the connection nor \<^verbatim>\<open>sequence\<close>, and is not
  part of the trace.
\<close>

datatype log_line =
    LogUpgradeFailed
  | LogReadFailed
  | LogInvalidOptions validation_error
  | LogPing string go_int
  | LogTimeout go_int
  | LogReply go_int string go_int go_int real
  | LogSendFailed
  | LogCheckFailed

datatype event =
    Log log_line
  | GoPreload string
  | HttpGet string
  | WriteJSON PongMessage bool
  | WriteControl bool
  | Sleep
  | ConnClose

text \<open>
  The ways a handler ends: one constructor for each \<^verbatim>\<open>return\<close> and \<^verbatim>\<open>break\<close> of
  \<^verbatim>\<open>PingHandler\<close>, and one for each run-time panic it can raise (\<^verbatim>\<open>time.NewTicker\<close> panics on a
  duration that is not positive; \<^verbatim>\<open>%\<close> panics on a zero divisor).
\<close>

datatype panic = NonPositiveTickerInterval | IntegerDivideByZero

datatype reason =
    UpgradeFailed
  | ReadError
  | InvalidOption validation_error
  | CountExhausted
  | WriteError
  | PeerUnreachable
  | Panicked panic

datatype status = Running | Terminated reason

subsection \<open>The helpers of the handler\<close>

text \<open>
  \<^verbatim>\<open>measureLatency\<close>, given the outcome of \<^verbatim>\<open>client.Get\<close> (the elapsed microseconds, or \<open>None\<close>
  for an error): the latency in milliseconds and whether an error is returned.
\<close>

definition measureLatency :: "int option \<Rightarrow> real \<times> bool" where
  "measureLatency resp =
    (case resp of None \<Rightarrow> (0, True) | Some us \<Rightarrow> (real_of_int us / 1000, False))"

text \<open>The first argument of \<open>createPongMessage\<close> is the reading of \<^verbatim>\<open>time.Now()\<close>.\<close>

definition createPongMessage :: "nat \<Rightarrow> string \<Rightarrow> go_int \<Rightarrow> real \<Rightarrow> bool \<Rightarrow> PongMessage" where
  "createPongMessage t address sequence latency success =
    \<lparr> Type = ''pong'', PongMessage.Timestamp = t, Bytes = defaultPacketSize,
      Sequence = sequence, PongMessage.Address = address, Latency = latency,
      Success = success \<rparr>"

definition createPongMessage_plain ::
    "nat \<Rightarrow> string \<Rightarrow> go_int \<Rightarrow> real \<Rightarrow> bool \<Rightarrow> PongMessage" where
  "createPongMessage_plain t address sequence latency success =
    \<lparr> Type = ''pong'', PongMessage.Timestamp = t, Bytes = responseBytes_plain,
      Sequence = sequence, PongMessage.Address = address, Latency = latency,
      Success = False \<rparr>"

definition logPingResult :: "string \<Rightarrow> go_int \<Rightarrow> real \<Rightarrow> bool \<Rightarrow> log_line" where
  "logPingResult address sequence latency success =
    (if \<not> success then LogTimeout sequence
     else LogReply defaultPacketSize address sequence defaultTTL latency)"

definition logPingResult_plain :: "string \<Rightarrow> go_int \<Rightarrow> real \<Rightarrow> bool \<Rightarrow> log_line" where
  "logPingResult_plain address sequence latency success =
    (if \<not> success then LogTimeout sequence
     else LogReply responseBytes_plain address sequence defaultTTL_plain latency)"

text \<open>
  Go's \<^verbatim>\<open>%\<close> on \<^verbatim>\<open>int\<close>: the remainder of the division that truncates towards zero, which
  has the sign of the dividend. The divisor is not zero where this is used.
\<close>

definition go_rem :: "go_int \<Rightarrow> go_int \<Rightarrow> go_int" where
  "go_rem a b = word_of_int (sint a smod sint b)"

text \<open>
  The local \<^verbatim>\<open>currentPacketSize\<close> of the loop body, from the value of \<^verbatim>\<open>sequence\<close> after
  its increment; \<open>None\<close> is the panic of \<^verbatim>\<open>%\<close> on a span that is zero.
\<close>

definition currentPacketSize :: "PingOptions \<Rightarrow> go_int \<Rightarrow> go_int option" where
  "currentPacketSize opts sequence =
    (if sint (PingOptions.SweepMaxSize opts) > 0 then
       (let span = PingOptions.SweepMaxSize opts - PingOptions.SweepMinSize opts + 1
        in if span = 0 then None
           else Some (PingOptions.SweepMinSize opts
                  + go_rem ((sequence - 1) * PingOptions.SweepIncrSize opts) span))
     else Some (PingOptions.PacketSize opts))"

subsection \<open>The loop and the handler\<close>

text \<open>
  \<open>pingTick\<close> is the body of the \<^verbatim>\<open>for range ticker.C\<close> loop after the increment of
  \<^verbatim>\<open>sequence\<close> (its third argument is the incremented value): the effects of the tick, and
  the reason for which the handler ends inside the tick, \<open>None\<close> when the loop goes on to
  wait for the next tick.
\<close>

definition pingTick ::
    "PingOptions \<Rightarrow> string \<Rightarrow> go_int \<Rightarrow> tick_io \<Rightarrow> event list \<times> reason option" where
  "pingTick opts address sequence t =
    (case currentPacketSize opts sequence of
       None \<Rightarrow> ([], Some (Panicked IntegerDivideByZero))
     | Some bytes \<Rightarrow>
        (let (latency, err) = measureLatency (get_result t);
             success = \<not> err;
             pong = (createPongMessage (now t) address (sequence - 1) latency success)
                      \<lparr>Bytes := bytes\<rparr>
         in if \<not> IsQuiet opts \<and> \<not> writeJSON_ok t
            then ([HttpGet address, WriteJSON pong False, Log LogSendFailed],
                  Some WriteError)
            else
              (let sent = (if \<not> IsQuiet opts
                    then [WriteJSON pong True,
                          Log (logPingResult address (sequence - 1) latency success)]
                    else [])
               in if \<not> IsFlood opts \<and> \<not> writeControl_ok t
                  then (HttpGet address # sent @ [WriteControl False, Log LogCheckFailed],
                        Some PeerUnreachable)
                  else (HttpGet address # sent
                          @ (if \<not> IsFlood opts then [WriteControl True] else [])
                          @ (if IsFlood opts then [Sleep] else []),
                        None))))"

fun pingLoop ::
    "PingOptions \<Rightarrow> string \<Rightarrow> go_int \<Rightarrow> tick_io list \<Rightarrow> event list \<times> status" where
  "pingLoop opts address sequence [] = ([], Running)"
| "pingLoop opts address sequence (t # ts) =
    (if sint (PingOptions.Count opts) > 0 \<and> sint sequence \<ge> sint (PingOptions.Count opts)
     then ([], Terminated CountExhausted)
     else
       (case pingTick opts address (sequence + 1) t of
          (evs, Some r) \<Rightarrow> (evs, Terminated r)
        | (evs, None) \<Rightarrow>
            (let (rest, st) = pingLoop opts address (sequence + 1) ts
             in (evs @ rest, st))))"

text \<open>
  \<^verbatim>\<open>PingHandler\<close>. The duration handed to \<^verbatim>\<open>time.NewTicker\<close> is
  \<^verbatim>\<open>time.Duration(opts.Wait) * time.Second\<close>, a 64-bit product with \<open>10\<^sup>9\<close>. The deferred
  \<^verbatim>\<open>conn.Close()\<close> runs when the handler ends after the upgrade, also on a panic. The
  timeout of the HTTP client bounds a probe, whose outcome the world gives; it does
  not occur in the model.
\<close>

definition PingHandler :: "session_io \<Rightarrow> event list \<times> status" where
  "PingHandler io =
    (if \<not> upgrade_ok io then ([Log LogUpgradeFailed], Terminated UpgradeFailed)
     else
       (case readJSON io of
          None \<Rightarrow> ([Log LogReadFailed, ConnClose], Terminated ReadError)
        | Some pingMsg \<Rightarrow>
           (case resolvePingOptions pingMsg of
              (opts, Some err) \<Rightarrow>
                ([Log (LogInvalidOptions err), ConnClose], Terminated (InvalidOption err))
            | (opts, None) \<Rightarrow>
               (let address = formatAddress (PingMessage.Address pingMsg);
                    start = Log (LogPing address (PingOptions.PacketSize opts))
                in if sint (PingOptions.Wait opts * 1000000000) \<le> 0
                   then ([start, ConnClose], Terminated (Panicked NonPositiveTickerInterval))
                   else
                     (let preload = (if sint (PingOptions.Preload opts) > 0
                            then replicate (nat (sint (PingOptions.Preload opts)))
                                   (GoPreload address)
                            else []);
                          (evs, st) = pingLoop opts address 0 (ticks io)
                      in (start # preload @ evs
                            @ (if st = Running then [] else [ConnClose]), st))))))"

text \<open>
  The loop and the handler of the plain listing: no options, a ticker of one second, a
  report and a liveness check on every tick, no exit but a failed write or liveness
  check. Its \<^verbatim>\<open>PingMessage\<close> has the address only, so only the address of the message
  read is used.
\<close>

definition pingTick_plain ::
    "string \<Rightarrow> go_int \<Rightarrow> tick_io \<Rightarrow> event list \<times> reason option" where
  "pingTick_plain address sequence t =
    (let (latency, err) = measureLatency (get_result t);
         success = \<not> err;
         pong = createPongMessage_plain (now t) address (sequence - 1) latency success
     in if \<not> writeJSON_ok t
        then ([HttpGet address, WriteJSON pong False, Log LogSendFailed], Some WriteError)
        else if \<not> writeControl_ok t
        then ([HttpGet address, WriteJSON pong True,
               Log (logPingResult_plain address (sequence - 1) latency success),
               WriteControl False, Log LogCheckFailed], Some PeerUnreachable)
        else ([HttpGet address, WriteJSON pong True,
               Log (logPingResult_plain address (sequence - 1) latency success),
               WriteControl True], None))"

fun pingLoop_plain :: "string \<Rightarrow> go_int \<Rightarrow> tick_io list \<Rightarrow> event list \<times> status" where
  "pingLoop_plain address sequence [] = ([], Running)"
| "pingLoop_plain address sequence (t # ts) =
    (case pingTick_plain address (sequence + 1) t of
       (evs, Some r) \<Rightarrow> (evs, Terminated r)
     | (evs, None) \<Rightarrow>
         (let (rest, st) = pingLoop_plain address (sequence + 1) ts
          in (evs @ rest, st)))"

definition PingHandler_plain :: "session_io \<Rightarrow> event list \<times> status" where
  "PingHandler_plain io =
    (if \<not> upgrade_ok io then ([Log LogUpgradeFailed], Terminated UpgradeFailed)
     else
       (case readJSON io of
          None \<Rightarrow> ([Log LogReadFailed, ConnClose], Terminated ReadError)
        | Some ping \<Rightarrow>
           (let address = formatAddress (PingMessage.Address ping);
                (evs, st) = pingLoop_plain address 0 (ticks io)
            in (Log (LogPing address dataBytes_plain) # evs
                  @ (if st = Running then [] else [ConnClose]), st))))"

text \<open>
  \<open>tick_report\<close> is the report that the loop body builds on a tick whose byte size is
  \<open>b\<close>.
\<close>

definition tick_report :: "PingOptions \<Rightarrow> string \<Rightarrow> go_int \<Rightarrow> tick_io \<Rightarrow> go_int \<Rightarrow> PongMessage" where
  "tick_report opts a s t b =
     (createPongMessage (now t) a (s - 1) (fst (measureLatency (get_result t)))
        (\<not> snd (measureLatency (get_result t))))\<lparr>Bytes := b\<rparr>"

subsection \<open>Reading a trace\<close>

text \<open>
  The reports handed to \<^verbatim>\<open>conn.WriteJSON\<close> (whatever the outcome of the write), those whose
  write succeeded, the liveness checks, the measurements of the loop, and every write on
  the connection.
\<close>

fun report_writes :: "event list \<Rightarrow> PongMessage list" where
  "report_writes [] = []"
| "report_writes (WriteJSON p ok # es) = p # report_writes es"
| "report_writes (e # es) = report_writes es"

fun reports :: "event list \<Rightarrow> PongMessage list" where
  "reports [] = []"
| "reports (WriteJSON p ok # es) = (if ok then p # reports es else reports es)"
| "reports (e # es) = reports es"

fun liveness_checks :: "event list \<Rightarrow> bool list" where
  "liveness_checks [] = []"
| "liveness_checks (WriteControl ok # es) = ok # liveness_checks es"
| "liveness_checks (e # es) = liveness_checks es"

fun measurements :: "event list \<Rightarrow> nat" where
  "measurements [] = 0"
| "measurements (HttpGet a # es) = Suc (measurements es)"
| "measurements (e # es) = measurements es"

fun is_write :: "event \<Rightarrow> bool" where
  "is_write (WriteJSON p ok) = True"
| "is_write (WriteControl ok) = True"
| "is_write e = False"

subsection \<open>The validation rules and the overrides, as the specification words them\<close>

text \<open>
  The eight rules of the specification, numbered in its order, read on the values of a
  configuration message after the defaults have been filled in for the absent fields:
  (1) count \<open>\<ge> 0\<close>, (2) interval \<open>\<ge> 0\<close>, (3) \<open>1 \<le>\<close> timeToLive \<open>\<le> 255\<close>, (4) packetSize \<open>\<ge> 0\<close>,
  (5) the sweep constraint, which binds only when sweepMax \<open>> 0\<close>, (6) timeout \<open>> 0\<close>,
  (7) waitTime \<open>> 0\<close>, (8) \<open>0 \<le>\<close> typeOfService \<open>\<le> 255\<close>. \<open>error_rule\<close> is the rule that an error
  of \<open>validatePingOptions\<close> reports, and \<open>first_failing_rule\<close> the first rule of the
  order that a message breaks.
\<close>

definition spec_rule :: "nat \<Rightarrow> PingMessage \<Rightarrow> bool" where
  "spec_rule i msg =
    (if i = 1 then 0 \<le> sint (getOrDefault (PingMessage.Count msg) defaultCount)
     else if i = 2 then 0 \<le> sint (getOrDefault (PingMessage.Wait msg) defaultWait)
     else if i = 3 then 1 \<le> sint (getOrDefault (PingMessage.TTL msg) defaultTTL)
                      \<and> sint (getOrDefault (PingMessage.TTL msg) defaultTTL) \<le> 255
     else if i = 4 then 0 \<le> sint (getOrDefault (PingMessage.PacketSize msg) defaultPacketSize)
     else if i = 5 then
       sint (getOrDefault (PingMessage.SweepMaxSize msg) defaultSweepMax) \<le> 0
       \<or> sint (getOrDefault (PingMessage.SweepMinSize msg) defaultSweepMin)
            < sint (getOrDefault (PingMessage.SweepMaxSize msg) defaultSweepMax)
          \<and> 0 < sint (getOrDefault (PingMessage.SweepIncrSize msg) defaultSweepIncr)
     else if i = 6 then 0 < sint (getOrDefault (PingMessage.Timeout msg) defaultTimeout)
     else if i = 7 then 0 < sint (getOrDefault (PingMessage.WaitTime msg) defaultWaitTime)
     else if i = 8 then 0 \<le> sint (getOrDefault (PingMessage.TOS msg) defaultTOS)
                      \<and> sint (getOrDefault (PingMessage.TOS msg) defaultTOS) \<le> 255
     else True)"

fun error_rule :: "validation_error \<Rightarrow> nat" where
  "error_rule CountNegative = 1"
| "error_rule WaitNegative = 2"
| "error_rule TTLOutOfRange = 3"
| "error_rule PacketSizeNegative = 4"
| "error_rule SweepMinNotLess = 5"
| "error_rule SweepIncrNotPositive = 5"
| "error_rule TimeoutNotPositive = 6"
| "error_rule WaitTimeNotPositive = 7"
| "error_rule TOSOutOfRange = 8"

definition first_failing_rule :: "PingMessage \<Rightarrow> nat option" where
  "first_failing_rule msg = find (\<lambda>i. \<not> spec_rule i msg) [1..<9]"

text \<open>
  \<open>override_kept\<close>: a resolved field equals the override, where one was supplied.
  \<open>present_in_range\<close>: every field that is present and that a rule speaks of satisfies
  its rule; the sweep constraint relates three fields and is read on their values after
  the defaults. \<open>overrides_exact\<close>: every resolved field equals its override;
  \<open>overrides_other\<close> leaves the interval out.
\<close>

definition override_kept :: "'a option \<Rightarrow> 'a \<Rightarrow> bool" where
  "override_kept supplied resolved = (case supplied of None \<Rightarrow> True | Some v \<Rightarrow> resolved = v)"

definition present_in_range :: "PingMessage \<Rightarrow> bool" where
  "present_in_range msg =
    ((case PingMessage.Count msg of None \<Rightarrow> True | Some c \<Rightarrow> 0 \<le> sint c)
     \<and> (case PingMessage.Wait msg of None \<Rightarrow> True | Some w \<Rightarrow> 0 \<le> sint w)
     \<and> (case PingMessage.TTL msg of None \<Rightarrow> True | Some t \<Rightarrow> 1 \<le> sint t \<and> sint t \<le> 255)
     \<and> (case PingMessage.PacketSize msg of None \<Rightarrow> True | Some s \<Rightarrow> 0 \<le> sint s)
     \<and> spec_rule 5 msg
     \<and> (case PingMessage.Timeout msg of None \<Rightarrow> True | Some t \<Rightarrow> 0 < sint t)
     \<and> (case PingMessage.WaitTime msg of None \<Rightarrow> True | Some w \<Rightarrow> 0 < sint w)
     \<and> (case PingMessage.TOS msg of None \<Rightarrow> True | Some z \<Rightarrow> 0 \<le> sint z \<and> sint z \<le> 255))"

definition overrides_other :: "PingMessage \<Rightarrow> PingOptions \<Rightarrow> bool" where
  "overrides_other msg opts =
    (override_kept (PingMessage.Count msg) (PingOptions.Count opts)
     \<and> override_kept (PingMessage.TTL msg) (PingOptions.TTL opts)
     \<and> override_kept (PingMessage.PacketSize msg) (PingOptions.PacketSize opts)
     \<and> override_kept (PingMessage.Timeout msg) (PingOptions.Timeout opts)
     \<and> override_kept (PingMessage.WaitTime msg) (PingOptions.WaitTime opts)
     \<and> override_kept (PingMessage.TOS msg) (PingOptions.TOS opts)
     \<and> override_kept (PingMessage.Preload msg) (PingOptions.Preload opts)
     \<and> override_kept (PingMessage.SweepMinSize msg) (PingOptions.SweepMinSize opts)
     \<and> override_kept (PingMessage.SweepMaxSize msg) (PingOptions.SweepMaxSize opts)
     \<and> override_kept (PingMessage.SweepIncrSize msg) (PingOptions.SweepIncrSize opts)
     \<and> override_kept (PingMessage.SourceAddr msg) (PingOptions.SourceAddr opts)
     \<and> override_kept (PingMessage.Pattern msg) (PingOptions.Pattern opts)
     \<and> override_kept (PingMessage.Mask msg) (PingOptions.Mask opts)
     \<and> override_kept (Adaptive msg) (IsAdaptive opts)
     \<and> override_kept (Audible msg) (IsAudible opts)
     \<and> override_kept (Debug msg) (IsDebug opts)
     \<and> override_kept (Flood msg) (IsFlood opts)
     \<and> override_kept (Numeric msg) (IsNumeric opts)
     \<and> override_kept (Quiet msg) (IsQuiet opts)
     \<and> override_kept (PingMessage.Timestamp msg) (HasTimestamp opts)
     \<and> override_kept (Verbose msg) (IsVerbose opts))"

definition overrides_exact :: "PingMessage \<Rightarrow> PingOptions \<Rightarrow> bool" where
  "overrides_exact msg opts =
    (overrides_other msg opts \<and> override_kept (PingMessage.Wait msg) (PingOptions.Wait opts))"

text \<open>
  The byte size of tick \<open>n\<close>, counted from 1, as the specification gives it, on the
  integers: the fixed packet size unless sweepMax \<open>> 0\<close>, and otherwise sweepMin plus
  \<open>(n - 1) * sweepIncrement\<close> modulo the span \<open>sweepMax - sweepMin + 1\<close>, a value of the
  interval from sweepMin to sweepMax.
\<close>

definition spec_byte_size_int :: "PingOptions \<Rightarrow> nat \<Rightarrow> int" where
  "spec_byte_size_int opts n =
    (if sint (PingOptions.SweepMaxSize opts) \<le> 0 then sint (PingOptions.PacketSize opts)
     else sint (PingOptions.SweepMinSize opts)
          + ((int n - 1) * sint (PingOptions.SweepIncrSize opts))
              mod (sint (PingOptions.SweepMaxSize opts) - sint (PingOptions.SweepMinSize opts) + 1))"

subsection \<open>Variations of a world\<close>

text \<open>
  \<open>with_probe io k g\<close> is the world \<open>io\<close> in which the probe of tick \<open>k\<close> has the outcome
  \<open>g\<close>. \<open>without_quiet io msg\<close> is the world \<open>io\<close> in which the message read is \<open>msg\<close> with
  quiet = false and every report write succeeds.
\<close>

definition with_probe :: "session_io \<Rightarrow> nat \<Rightarrow> int option \<Rightarrow> session_io" where
  "with_probe io k g = io\<lparr>ticks := (ticks io)[k := (ticks io ! k)\<lparr>get_result := g\<rparr>]\<rparr>"

definition without_quiet :: "session_io \<Rightarrow> PingMessage \<Rightarrow> session_io" where
  "without_quiet io msg =
    io\<lparr>readJSON := Some (msg\<lparr>Quiet := Some False\<rparr>),
       ticks := map (\<lambda>t. t\<lparr>writeJSON_ok := True\<rparr>) (ticks io)\<rparr>"

subsection \<open>Concrete inputs\<close>

definition no_overrides :: "string \<Rightarrow> PingMessage" where
  "no_overrides a =
    \<lparr> PingMessage.Address = a, Adaptive = None, Audible = None, Debug = None, Flood = None,
      Numeric = None, Quiet = None, PingMessage.Timestamp = None, Verbose = None,
      PingMessage.Count = None, PingMessage.SweepMaxSize = None,
      PingMessage.SweepMinSize = None, PingMessage.SweepIncrSize = None,
      PingMessage.Wait = None, PingMessage.Preload = None, PingMessage.Mask = None,
      PingMessage.TTL = None, PingMessage.Pattern = None, PingMessage.SourceAddr = None,
      PingMessage.PacketSize = None, PingMessage.Timeout = None,
      PingMessage.WaitTime = None, PingMessage.TOS = None \<rparr>"

definition flood_msg :: PingMessage where
  "flood_msg = (no_overrides ''example.com'')\<lparr>Flood := Some True, PingMessage.Wait := Some 5\<rparr>"

definition full_msg :: PingMessage where
  "full_msg =
    \<lparr> PingMessage.Address = ''example.com'', Adaptive = Some True, Audible = Some False,
      Debug = Some True, Flood = Some False, Numeric = Some True, Quiet = Some False,
      PingMessage.Timestamp = Some True, Verbose = Some True,
      PingMessage.Count = Some 3, PingMessage.SweepMaxSize = Some 20,
      PingMessage.SweepMinSize = Some 10, PingMessage.SweepIncrSize = Some 5,
      PingMessage.Wait = Some 2, PingMessage.Preload = Some 1, PingMessage.Mask = Some ''mask'',
      PingMessage.TTL = Some 128, PingMessage.Pattern = Some ''ff'',
      PingMessage.SourceAddr = Some ''10.0.0.1'',
      PingMessage.PacketSize = Some 100, PingMessage.Timeout = Some 3,
      PingMessage.WaitTime = Some 4, PingMessage.TOS = Some 16 \<rparr>"

definition bad_ttl_msg :: PingMessage where
  "bad_ttl_msg =
    (no_overrides ''example.com'')\<lparr>PingMessage.TTL := Some 256, PingMessage.TOS := Some 300\<rparr>"

definition ok_tick :: tick_io where
  "ok_tick = \<lparr> get_result = Some 1500, now = 0, writeJSON_ok = True, writeControl_ok = True \<rparr>"

definition bad_ttl_io :: session_io where
  "bad_ttl_io = \<lparr> upgrade_ok = True, readJSON = Some bad_ttl_msg, ticks = [ok_tick, ok_tick] \<rparr>"

definition fail_tick :: tick_io where
  "fail_tick = \<lparr> get_result = None, now = 0, writeJSON_ok = True, writeControl_ok = True \<rparr>"

definition sweep_msg :: PingMessage where
  "sweep_msg = (no_overrides ''example.com'')\<lparr>PingMessage.Count := Some 3,
     PingMessage.SweepMaxSize := Some 20, PingMessage.SweepMinSize := Some 10,
     PingMessage.SweepIncrSize := Some 5\<rparr>"

definition sweep_io :: session_io where
  "sweep_io = \<lparr> upgrade_ok = True, readJSON = Some sweep_msg,
     ticks = [ok_tick, fail_tick, ok_tick, ok_tick] \<rparr>"

definition quiet_msg :: PingMessage where
  "quiet_msg = (no_overrides ''example.com'')\<lparr>Quiet := Some True, PingMessage.Count := Some 2\<rparr>"

definition quiet_io :: session_io where
  "quiet_io = \<lparr> upgrade_ok = True, readJSON = Some quiet_msg,
     ticks = [ok_tick, fail_tick, ok_tick] \<rparr>"

definition read_fail_io :: session_io where
  "read_fail_io = \<lparr> upgrade_ok = True, readJSON = None, ticks = [ok_tick] \<rparr>"

definition zero_interval_msg :: PingMessage where
  "zero_interval_msg =
     (no_overrides ''example.com'')\<lparr>PingMessage.Count := Some 3, PingMessage.Wait := Some 0\<rparr>"

definition zero_interval_io :: session_io where
  "zero_interval_io = \<lparr> upgrade_ok = True, readJSON = Some zero_interval_msg,
     ticks = [ok_tick, ok_tick, ok_tick, ok_tick] \<rparr>"

definition full_span_msg :: PingMessage where
  "full_span_msg = (no_overrides ''example.com'')\<lparr>PingMessage.Count := Some 3,
     PingMessage.SweepMaxSize := Some 9223372036854775807,
     PingMessage.SweepMinSize := Some (- 9223372036854775808),
     PingMessage.SweepIncrSize := Some 1\<rparr>"

definition full_span_io :: session_io where
  "full_span_io = \<lparr> upgrade_ok = True, readJSON = Some full_span_msg,
     ticks = [ok_tick, ok_tick, ok_tick, ok_tick] \<rparr>"

definition overflow_msg :: PingMessage where
  "overflow_msg = (no_overrides ''example.com'')\<lparr>
     PingMessage.SweepMaxSize := Some 20, PingMessage.SweepMinSize := Some 10,
     PingMessage.SweepIncrSize := Some 9223372036854775807\<rparr>"

definition overflow_io :: session_io where
  "overflow_io = \<lparr> upgrade_ok = True, readJSON = Some overflow_msg,
     ticks = [ok_tick, ok_tick, ok_tick] \<rparr>"

definition quiet_zero_interval_msg :: PingMessage where
  "quiet_zero_interval_msg = (no_overrides ''example.com'')\<lparr>Quiet := Some True,
     PingMessage.Count := Some 3, PingMessage.Wait := Some 0\<rparr>"

definition quiet_zero_interval_io :: session_io where
  "quiet_zero_interval_io = \<lparr> upgrade_ok = True, readJSON = Some quiet_zero_interval_msg,
     ticks = [ok_tick, ok_tick, ok_tick, ok_tick] \<rparr>"

section \<open>Option resolution\<close>

lemmas defaults = defaultCount_def defaultWait_def defaultTTL_def defaultPacketSize_def
  defaultTimeout_def defaultWaitTime_def defaultTOS_def defaultPreload_def
  defaultSweepMin_def defaultSweepMax_def defaultSweepIncr_def

lemma getOrDefault_simps [simp]: "getOrDefault None d = d" "getOrDefault (Some x) d = x"
  by (simp_all add: getOrDefault_def)

lemma override_kept_getOrDefault [simp]: "override_kept v (getOrDefault v d)"
  by (cases v) (simp_all add: override_kept_def getOrDefault_def)

lemma spec_rules: 
  "spec_rule 1 msg = (0 \<le> sint (getOrDefault (PingMessage.Count msg) defaultCount))"
  "spec_rule 2 msg = (0 \<le> sint (getOrDefault (PingMessage.Wait msg) defaultWait))"
  "spec_rule 3 msg = (1 \<le> sint (getOrDefault (PingMessage.TTL msg) defaultTTL)
                      \<and> sint (getOrDefault (PingMessage.TTL msg) defaultTTL) \<le> 255)"
  "spec_rule 4 msg = (0 \<le> sint (getOrDefault (PingMessage.PacketSize msg) defaultPacketSize))"
  "spec_rule 5 msg = (sint (getOrDefault (PingMessage.SweepMaxSize msg) defaultSweepMax) \<le> 0
       \<or> sint (getOrDefault (PingMessage.SweepMinSize msg) defaultSweepMin)
            < sint (getOrDefault (PingMessage.SweepMaxSize msg) defaultSweepMax)
          \<and> 0 < sint (getOrDefault (PingMessage.SweepIncrSize msg) defaultSweepIncr))"
  "spec_rule 6 msg = (0 < sint (getOrDefault (PingMessage.Timeout msg) defaultTimeout))"
  "spec_rule 7 msg = (0 < sint (getOrDefault (PingMessage.WaitTime msg) defaultWaitTime))"
  "spec_rule 8 msg = (0 \<le> sint (getOrDefault (PingMessage.TOS msg) defaultTOS)
                      \<and> sint (getOrDefault (PingMessage.TOS msg) defaultTOS) \<le> 255)"
  by (simp_all add: spec_rule_def)

lemma upto8:
  "(j::nat) \<in> {1..8} \<longleftrightarrow>
     j = 1 \<or> j = 2 \<or> j = 3 \<or> j = 4 \<or> j = 5 \<or> j = 6 \<or> j = 7 \<or> j = 8"
  by auto

lemma ball8:
  "(\<forall>j\<in>{1..8::nat}. P j) \<longleftrightarrow> P 1 \<and> P 2 \<and> P 3 \<and> P 4 \<and> P 5 \<and> P 6 \<and> P 7 \<and> P 8"
  unfolding Ball_def upto8 by blast

lemma upt_1_9: "[1..<9] = [1, 2, 3, 4, 5, 6, 7, 8 :: nat]"
  by (simp add: upt_rec)

lemma first_failing_rule_unfold:
  "first_failing_rule msg =
    (if \<not> spec_rule 1 msg then Some 1 else if \<not> spec_rule 2 msg then Some 2
     else if \<not> spec_rule 3 msg then Some 3 else if \<not> spec_rule 4 msg then Some 4
     else if \<not> spec_rule 5 msg then Some 5 else if \<not> spec_rule 6 msg then Some 6
     else if \<not> spec_rule 7 msg then Some 7 else if \<not> spec_rule 8 msg then Some 8
     else None)"
  by (simp only: first_failing_rule_def upt_1_9 find.simps)

lemma spec_rule_neg:
  "(\<not> spec_rule 1 msg) = (sint (getOrDefault (PingMessage.Count msg) defaultCount) < 0)"
  "(\<not> spec_rule 2 msg) = (sint (getOrDefault (PingMessage.Wait msg) defaultWait) < 0)"
  "(\<not> spec_rule 3 msg) = (sint (getOrDefault (PingMessage.TTL msg) defaultTTL) \<le> 0
      \<or> sint (getOrDefault (PingMessage.TTL msg) defaultTTL) > 255)"
  "(\<not> spec_rule 4 msg) = (sint (getOrDefault (PingMessage.PacketSize msg) defaultPacketSize) < 0)"
  "(\<not> spec_rule 5 msg) =
     (sint (getOrDefault (PingMessage.SweepMaxSize msg) defaultSweepMax) > 0
        \<and> sint (getOrDefault (PingMessage.SweepMinSize msg) defaultSweepMin)
            \<ge> sint (getOrDefault (PingMessage.SweepMaxSize msg) defaultSweepMax)
      \<or> sint (getOrDefault (PingMessage.SweepMaxSize msg) defaultSweepMax) > 0
        \<and> sint (getOrDefault (PingMessage.SweepIncrSize msg) defaultSweepIncr) \<le> 0)"
  "(\<not> spec_rule 6 msg) = (sint (getOrDefault (PingMessage.Timeout msg) defaultTimeout) \<le> 0)"
  "(\<not> spec_rule 7 msg) = (sint (getOrDefault (PingMessage.WaitTime msg) defaultWaitTime) \<le> 0)"
  "(\<not> spec_rule 8 msg) = (sint (getOrDefault (PingMessage.TOS msg) defaultTOS) < 0
      \<or> sint (getOrDefault (PingMessage.TOS msg) defaultTOS) > 255)"
  unfolding spec_rules by linarith+

lemma error_rule_chain:
  "map_option error_rule
     (if a1 then Some CountNegative else if a2 then Some WaitNegative
      else if a3 then Some TTLOutOfRange else if a4 then Some PacketSizeNegative
      else if a5 then Some SweepMinNotLess else if b5 then Some SweepIncrNotPositive
      else if a6 then Some TimeoutNotPositive else if a7 then Some WaitTimeNotPositive
      else if a8 then Some TOSOutOfRange else None)
   = (if a1 then Some 1 else if a2 then Some 2 else if a3 then Some 3
      else if a4 then Some 4 else if a5 \<or> b5 then Some 5 else if a6 then Some 6
      else if a7 then Some 7 else if a8 then Some 8 else None)"
  by simp

lemma resolve_validates:
  "snd (resolvePingOptions msg) =
     (if sint (getOrDefault (PingMessage.Count msg) defaultCount) < 0 then Some CountNegative
      else if sint (getOrDefault (PingMessage.Wait msg) defaultWait) < 0 then Some WaitNegative
      else if sint (getOrDefault (PingMessage.TTL msg) defaultTTL) \<le> 0
            \<or> sint (getOrDefault (PingMessage.TTL msg) defaultTTL) > 255
        then Some TTLOutOfRange
      else if sint (getOrDefault (PingMessage.PacketSize msg) defaultPacketSize) < 0
        then Some PacketSizeNegative
      else if sint (getOrDefault (PingMessage.SweepMaxSize msg) defaultSweepMax) > 0
            \<and> sint (getOrDefault (PingMessage.SweepMinSize msg) defaultSweepMin)
                \<ge> sint (getOrDefault (PingMessage.SweepMaxSize msg) defaultSweepMax)
        then Some SweepMinNotLess
      else if sint (getOrDefault (PingMessage.SweepMaxSize msg) defaultSweepMax) > 0
            \<and> sint (getOrDefault (PingMessage.SweepIncrSize msg) defaultSweepIncr) \<le> 0
        then Some SweepIncrNotPositive
      else if sint (getOrDefault (PingMessage.Timeout msg) defaultTimeout) \<le> 0
        then Some TimeoutNotPositive
      else if sint (getOrDefault (PingMessage.WaitTime msg) defaultWaitTime) \<le> 0
        then Some WaitTimeNotPositive
      else if sint (getOrDefault (PingMessage.TOS msg) defaultTOS) < 0
            \<or> sint (getOrDefault (PingMessage.TOS msg) defaultTOS) > 255
        then Some TOSOutOfRange
      else None)"
  by (simp add: resolvePingOptions_def Let_def validatePingOptions_def split: option.splits)

lemma resolve_error_rule:
  "map_option error_rule (snd (resolvePingOptions msg)) = first_failing_rule msg"
  unfolding first_failing_rule_unfold spec_rule_neg resolve_validates
  by (rule error_rule_chain)

lemma validate_all_rules:
  "(snd (resolvePingOptions msg) = None) = (\<forall>j\<in>{1..8}. spec_rule j msg)"
proof -
  have "(snd (resolvePingOptions msg) = None) = (first_failing_rule msg = None)"
    by (simp flip: resolve_error_rule)
  also have "\<dots> = (\<forall>j\<in>{1..8}. spec_rule j msg)"
    unfolding ball8 first_failing_rule_unfold by (simp split: if_splits)
  finally show ?thesis .
qed

lemma present_in_range_rules:
  assumes "present_in_range msg"
  shows "spec_rule 1 msg" "spec_rule 2 msg" "spec_rule 3 msg" "spec_rule 4 msg"
    "spec_rule 5 msg" "spec_rule 6 msg" "spec_rule 7 msg" "spec_rule 8 msg"
proof -
  show "spec_rule 1 msg" unfolding spec_rules using assms
    by (cases "PingMessage.Count msg") (simp_all add: present_in_range_def defaults)
  show "spec_rule 2 msg" unfolding spec_rules using assms
    by (cases "PingMessage.Wait msg") (simp_all add: present_in_range_def defaults)
  show "spec_rule 3 msg" unfolding spec_rules using assms
    by (cases "PingMessage.TTL msg") (simp_all add: present_in_range_def defaults)
  show "spec_rule 4 msg" unfolding spec_rules using assms
    by (cases "PingMessage.PacketSize msg") (simp_all add: present_in_range_def defaults)
  show "spec_rule 5 msg" using assms
    by (simp add: present_in_range_def)
  show "spec_rule 6 msg" unfolding spec_rules using assms
    by (cases "PingMessage.Timeout msg") (simp_all add: present_in_range_def defaults)
  show "spec_rule 7 msg" unfolding spec_rules using assms
    by (cases "PingMessage.WaitTime msg") (simp_all add: present_in_range_def defaults)
  show "spec_rule 8 msg" unfolding spec_rules using assms
    by (cases "PingMessage.TOS msg") (simp_all add: present_in_range_def defaults)
qed

lemma resolve_fst:
  "fst (resolvePingOptions msg) =
     \<lparr> PingOptions.Count = getOrDefault (PingMessage.Count msg) defaultCount,
        PingOptions.Wait =
          (if snd (resolvePingOptions msg) = None \<and> getOrDefault (Flood msg) False then 1
           else getOrDefault (PingMessage.Wait msg) defaultWait),
        PingOptions.TTL = getOrDefault (PingMessage.TTL msg) defaultTTL,
        PingOptions.PacketSize = getOrDefault (PingMessage.PacketSize msg) defaultPacketSize,
        PingOptions.Timeout = getOrDefault (PingMessage.Timeout msg) defaultTimeout,
        PingOptions.WaitTime = getOrDefault (PingMessage.WaitTime msg) defaultWaitTime,
        PingOptions.TOS = getOrDefault (PingMessage.TOS msg) defaultTOS,
        PingOptions.Preload = getOrDefault (PingMessage.Preload msg) defaultPreload,
        PingOptions.SweepMinSize = getOrDefault (PingMessage.SweepMinSize msg) defaultSweepMin,
        PingOptions.SweepMaxSize = getOrDefault (PingMessage.SweepMaxSize msg) defaultSweepMax,
        PingOptions.SweepIncrSize = getOrDefault (PingMessage.SweepIncrSize msg) defaultSweepIncr,
        PingOptions.SourceAddr = getOrDefault (PingMessage.SourceAddr msg) [],
        PingOptions.Pattern = getOrDefault (PingMessage.Pattern msg) [],
        PingOptions.Mask = getOrDefault (PingMessage.Mask msg) [],
        IsAdaptive = getOrDefault (Adaptive msg) False,
        IsAudible = getOrDefault (Audible msg) False,
        IsDebug = getOrDefault (Debug msg) False,
        IsFlood = getOrDefault (Flood msg) False,
        IsNumeric = getOrDefault (Numeric msg) False,
        IsQuiet = getOrDefault (Quiet msg) False,
        HasTimestamp = getOrDefault (PingMessage.Timestamp msg) False,
        IsVerbose = getOrDefault (Verbose msg) False \<rparr>"
  by (simp add: resolvePingOptions_def Let_def split: option.split)

lemma resolve_fields:
  "overrides_other msg (fst (resolvePingOptions msg))"
  by (simp add: resolve_fst overrides_other_def)

lemma resolve_Wait:
  "PingOptions.Wait (fst (resolvePingOptions msg))
     = (if snd (resolvePingOptions msg) = None \<and> getOrDefault (Flood msg) False then 1
        else getOrDefault (PingMessage.Wait msg) defaultWait)"
  by (simp add: resolve_fst)

lemma handler_invalid:
  "upgrade_ok io \<Longrightarrow> readJSON io = Some msg \<Longrightarrow> snd (resolvePingOptions msg) = Some e \<Longrightarrow>
   PingHandler io = ([Log (LogInvalidOptions e), ConnClose], Terminated (InvalidOption e))"
  by (cases "resolvePingOptions msg") (simp add: PingHandler_def)



text \<open>
  C9. A configuration message in which every optional field is absent resolves without
  error to the built-in defaults: count 0, interval 1, timeToLive 64, packetSize 56,
  timeout 5, waitTime 10, typeOfService 0, preloadCount 0, the three sweep fields 0, the
  three strings empty and every mode flag false. The error component \<open>None\<close> says that
  these defaults pass validation.
\<close>

theorem defaults_resolve:
  "resolvePingOptions (no_overrides a) =
    (\<lparr> PingOptions.Count = 0, PingOptions.Wait = 1, PingOptions.TTL = 64,
       PingOptions.PacketSize = 56, PingOptions.Timeout = 5, PingOptions.WaitTime = 10,
       PingOptions.TOS = 0, PingOptions.Preload = 0, PingOptions.SweepMinSize = 0,
       PingOptions.SweepMaxSize = 0, PingOptions.SweepIncrSize = 0,
       PingOptions.SourceAddr = [], PingOptions.Pattern = [], PingOptions.Mask = [],
       IsAdaptive = False, IsAudible = False, IsDebug = False, IsFlood = False,
       IsNumeric = False, IsQuiet = False, HasTimestamp = False, IsVerbose = False \<rparr>,
     None)"
  by (simp add: resolvePingOptions_def no_overrides_def defaults validatePingOptions_def)

theorem defaults_resolve_witness:
  "snd (resolvePingOptions (no_overrides ''example.com'')) = None
     \<and> PingOptions.TTL (fst (resolvePingOptions (no_overrides ''example.com''))) = 64"
  using defaults_resolve [of "''example.com''"] by simp

text \<open>
  C10. \<open>formatAddress\<close> is idempotent; an address that begins with \<^verbatim>\<open>http://\<close> or
  \<^verbatim>\<open>https://\<close> is returned unchanged, and any other address is returned with \<^verbatim>\<open>http://\<close>
  in front. The function is the same in both listings of the source.
\<close>

theorem formatAddress_idempotent:
  "formatAddress (formatAddress a) = formatAddress a
     \<and> (prefix ''http://'' a \<or> prefix ''https://'' a \<longrightarrow> formatAddress a = a)
     \<and> (\<not> prefix ''http://'' a \<and> \<not> prefix ''https://'' a \<longrightarrow>
          formatAddress a = ''http://'' @ a)"
  by (auto simp: formatAddress_def)

theorem formatAddress_idempotent_witness:
  "\<not> prefix ''http://'' ''example.com'' \<and> \<not> prefix ''https://'' ''example.com''
     \<and> formatAddress ''example.com'' = ''http://example.com''
     \<and> formatAddress (formatAddress ''example.com'') = formatAddress ''example.com''
     \<and> prefix ''https://'' ''https://example.com''
     \<and> formatAddress ''https://example.com'' = ''https://example.com''"
proof -
  have h: "\<not> prefix ''http://'' ''example.com'' \<and> \<not> prefix ''https://'' ''example.com''"
    by simp
  have g: "prefix ''https://'' ''https://example.com''"
    by simp
  show ?thesis
    using h g formatAddress_idempotent [of "''example.com''"]
      formatAddress_idempotent [of "''https://example.com''"]
    by (simp add: formatAddress_def)
qed

text \<open>
  C3. For every configuration message with flood = true: if validation passes, the
  resolved interval is 1, whatever interval was supplied. The override comes after
  validation: when validation fails the interval of the returned options is still the
  supplied one (or the default), and a supplied interval that is negative is rejected
  by validation, which therefore saw it before any override.
\<close>

theorem flood_forces_interval:
  assumes "Flood msg = Some True"
  shows "(snd (resolvePingOptions msg) = None \<longrightarrow>
            PingOptions.Wait (fst (resolvePingOptions msg)) = 1)
       \<and> (snd (resolvePingOptions msg) \<noteq> None \<longrightarrow>
            PingOptions.Wait (fst (resolvePingOptions msg))
              = getOrDefault (PingMessage.Wait msg) defaultWait)
       \<and> (sint (getOrDefault (PingMessage.Wait msg) defaultWait) < 0 \<longrightarrow>
            snd (resolvePingOptions msg) \<noteq> None)"
proof -
  have "sint (getOrDefault (PingMessage.Wait msg) defaultWait) < 0 \<Longrightarrow>
      snd (resolvePingOptions msg) \<noteq> None"
    by (simp add: resolve_validates)
  then show ?thesis using assms by (simp add: resolve_Wait)
qed

theorem flood_forces_interval_witness:
  "Flood flood_msg = Some True \<and> PingMessage.Wait flood_msg = Some 5
     \<and> snd (resolvePingOptions flood_msg) = None
     \<and> PingOptions.Wait (fst (resolvePingOptions flood_msg)) = 1"
proof -
  have h: "Flood flood_msg = Some True" by (simp add: flood_msg_def)
  have v: "snd (resolvePingOptions flood_msg) = None"
    by (simp add: resolve_validates flood_msg_def no_overrides_def defaults)
  show ?thesis using h v flood_forces_interval [OF h] by (simp add: flood_msg_def)
qed

text \<open>
  C4, as stated: whenever every present field of a configuration message is in range,
  resolution succeeds and every resolved field equals the supplied override. This fails
  for the interval: the message with flood = true and interval = 5 is in range, and its
  resolved interval is 1.
\<close>

theorem overrides_exact_fails_under_flood:
  "present_in_range flood_msg \<and> PingMessage.Wait flood_msg = Some 5
     \<and> snd (resolvePingOptions flood_msg) = None
     \<and> PingOptions.Wait (fst (resolvePingOptions flood_msg)) = 1
     \<and> \<not> overrides_exact flood_msg (fst (resolvePingOptions flood_msg))"
  by (simp add: flood_msg_def no_overrides_def present_in_range_def spec_rules
      defaults resolve_Wait resolve_validates overrides_exact_def override_kept_def)

text \<open>
  C4, amended: whenever every present field of a configuration message is in range
  (the sweep constraint read on the three sweep fields after the defaults), resolution
  succeeds, every resolved field other than the interval equals the supplied override,
  and the resolved interval is 1 when flood = true was supplied and the supplied
  override otherwise. No range is asked of the preload count, which validation does not
  look at.
\<close>

theorem resolve_in_range_succeeds:
  assumes "present_in_range msg"
  shows "snd (resolvePingOptions msg) = None
       \<and> overrides_other msg (fst (resolvePingOptions msg))
       \<and> (if Flood msg = Some True
          then PingOptions.Wait (fst (resolvePingOptions msg)) = 1
          else override_kept (PingMessage.Wait msg)
                 (PingOptions.Wait (fst (resolvePingOptions msg))))"
proof -
  have ok: "snd (resolvePingOptions msg) = None"
    unfolding validate_all_rules ball8 using present_in_range_rules [OF assms] by simp
  have "Flood msg = Some True \<Longrightarrow> PingOptions.Wait (fst (resolvePingOptions msg)) = 1"
    by (simp add: resolve_Wait ok)
  moreover have "Flood msg \<noteq> Some True \<Longrightarrow>
      override_kept (PingMessage.Wait msg) (PingOptions.Wait (fst (resolvePingOptions msg)))"
    by (cases "Flood msg") (auto simp add: resolve_Wait ok)
  ultimately show ?thesis using ok resolve_fields [of msg] by simp
qed

theorem resolve_in_range_succeeds_witness:
  "present_in_range full_msg \<and> snd (resolvePingOptions full_msg) = None
     \<and> overrides_exact full_msg (fst (resolvePingOptions full_msg))"
proof -
  have h: "present_in_range full_msg"
    by (simp add: full_msg_def present_in_range_def spec_rules defaults)
  have f: "Flood full_msg = Some False" "PingMessage.Wait full_msg = Some 2"
    by (simp_all add: full_msg_def)
  show ?thesis using h resolve_in_range_succeeds [OF h] by (simp add: f overrides_exact_def)
qed

text \<open>
  C5. For every configuration message that breaks at least one of the eight rules,
  resolution returns an error, the error is the one of the first rule, in the order of
  the specification, that the message breaks, and a handler that has read the message
  does nothing with the options: it logs the error, closes the connection and ends with
  \<open>InvalidOption\<close>, having made no measurement and no write. A field is out of range
  when it breaks one of the eight rules that the claim lists; the preload count, of
  which no rule speaks, is not validated.
\<close>

theorem invalid_option_first_failing_rule:
  assumes "upgrade_ok io" and "readJSON io = Some msg"
    and "\<exists>i\<in>{1..8}. \<not> spec_rule i msg"
  shows "\<exists>e. snd (resolvePingOptions msg) = Some e
           \<and> first_failing_rule msg = Some (error_rule e)
           \<and> PingHandler io
               = ([Log (LogInvalidOptions e), ConnClose], Terminated (InvalidOption e))"
proof -
  from assms(3) have "snd (resolvePingOptions msg) \<noteq> None"
    by (simp only: validate_all_rules) blast
  then obtain e where e: "snd (resolvePingOptions msg) = Some e" by blast
  with resolve_error_rule [of msg] have "first_failing_rule msg = Some (error_rule e)"
    by simp
  with e handler_invalid [OF assms(1,2) e] show ?thesis by blast
qed

theorem invalid_option_first_failing_rule_witness:
  "upgrade_ok bad_ttl_io \<and> readJSON bad_ttl_io = Some bad_ttl_msg
     \<and> \<not> spec_rule 3 bad_ttl_msg \<and> \<not> spec_rule 8 bad_ttl_msg
     \<and> snd (resolvePingOptions bad_ttl_msg) = Some TTLOutOfRange
     \<and> first_failing_rule bad_ttl_msg = Some 3
     \<and> PingHandler bad_ttl_io
         = ([Log (LogInvalidOptions TTLOutOfRange), ConnClose],
            Terminated (InvalidOption TTLOutOfRange))"
proof -
  have h1: "upgrade_ok bad_ttl_io" and h2: "readJSON bad_ttl_io = Some bad_ttl_msg"
    by (simp_all add: bad_ttl_io_def)
  have r3: "\<not> spec_rule 3 bad_ttl_msg" and r8: "\<not> spec_rule 8 bad_ttl_msg"
    unfolding spec_rules by (simp_all add: bad_ttl_msg_def no_overrides_def)
  have h3: "\<exists>i\<in>{1..8}. \<not> spec_rule i bad_ttl_msg"
    using r3 by (intro bexI [of _ 3]) simp_all
  have e: "snd (resolvePingOptions bad_ttl_msg) = Some TTLOutOfRange"
    by (simp add: resolve_validates bad_ttl_msg_def no_overrides_def defaults)
  show ?thesis
    using h1 h2 r3 r8 e invalid_option_first_failing_rule [OF h1 h2 h3] by auto
qed


section \<open>The loop\<close>

text \<open>
  What one tick contributes to each reading of the trace, a case rule for one step of the
  loop, and the properties of the loop that the theorems on sessions rest on, each by
  induction on the list of ticks with the sequence counter generalised.
\<close>

lemma report_writes_append [simp]:
  "report_writes (xs @ ys) = report_writes xs @ report_writes ys"
  by (induction xs rule: report_writes.induct) simp_all

lemma reports_append [simp]: "reports (xs @ ys) = reports xs @ reports ys"
  by (induction xs rule: reports.induct) simp_all

lemma liveness_checks_append [simp]:
  "liveness_checks (xs @ ys) = liveness_checks xs @ liveness_checks ys"
  by (induction xs rule: liveness_checks.induct) simp_all

lemma measurements_append [simp]:
  "measurements (xs @ ys) = measurements xs + measurements ys"
  by (induction xs rule: measurements.induct) simp_all

lemma preload_silent [simp]:
  "report_writes (replicate n (GoPreload a)) = []"
  "reports (replicate n (GoPreload a)) = []"
  "liveness_checks (replicate n (GoPreload a)) = []"
  "measurements (replicate n (GoPreload a)) = 0"
  "filter is_write (replicate n (GoPreload a)) = []"
  by (induction n) simp_all

lemma pingTick_panic:
  "currentPacketSize opts s = None \<Longrightarrow>
     pingTick opts a s t = ([], Some (Panicked IntegerDivideByZero))"
  by (simp add: pingTick_def)

lemma pingTick_snd:
  "currentPacketSize opts s = Some b \<Longrightarrow>
     snd (pingTick opts a s t) =
       (if \<not> IsQuiet opts \<and> \<not> writeJSON_ok t then Some WriteError
        else if \<not> IsFlood opts \<and> \<not> writeControl_ok t then Some PeerUnreachable
        else None)"
  by (simp add: pingTick_def Let_def split: prod.splits)

lemma pingTick_report_writes:
  "currentPacketSize opts s = Some b \<Longrightarrow>
     report_writes (fst (pingTick opts a s t))
       = (if IsQuiet opts then [] else [tick_report opts a s t b])"
  by (simp add: pingTick_def Let_def tick_report_def split: prod.splits)

lemma pingTick_reports:
  "currentPacketSize opts s = Some b \<Longrightarrow>
     reports (fst (pingTick opts a s t))
       = (if IsQuiet opts \<or> \<not> writeJSON_ok t then [] else [tick_report opts a s t b])"
  by (simp add: pingTick_def Let_def tick_report_def split: prod.splits)

lemma pingTick_measurements:
  "currentPacketSize opts s = Some b \<Longrightarrow> measurements (fst (pingTick opts a s t)) = 1"
  by (simp add: pingTick_def Let_def split: prod.splits)

lemma pingTick_liveness_checks:
  "currentPacketSize opts s = Some b \<Longrightarrow>
     liveness_checks (fst (pingTick opts a s t))
       = (if \<not> IsQuiet opts \<and> \<not> writeJSON_ok t \<or> IsFlood opts then []
          else [writeControl_ok t])"
  by (simp add: pingTick_def Let_def split: prod.splits)

lemma currentPacketSize_None:
  "(currentPacketSize opts s = None) =
     (sint (PingOptions.SweepMaxSize opts) > 0
      \<and> PingOptions.SweepMaxSize opts - PingOptions.SweepMinSize opts + 1 = 0)"
  by (simp add: currentPacketSize_def Let_def)

lemma currentPacketSize_indep:
  "(currentPacketSize opts s = None) = (currentPacketSize opts s' = None)"
  by (simp add: currentPacketSize_None)

lemma pingLoop_Cons_cases [case_names stop panic halt go]:
  obtains
    (stop) "sint (PingOptions.Count opts) > 0" "sint s \<ge> sint (PingOptions.Count opts)"
      "pingLoop opts a s (t # ts) = ([], Terminated CountExhausted)"
  | (panic) "\<not> (sint (PingOptions.Count opts) > 0 \<and> sint s \<ge> sint (PingOptions.Count opts))"
      "currentPacketSize opts (s + 1) = None"
      "pingLoop opts a s (t # ts) = ([], Terminated (Panicked IntegerDivideByZero))"
  | (halt) b r where
      "\<not> (sint (PingOptions.Count opts) > 0 \<and> sint s \<ge> sint (PingOptions.Count opts))"
      "currentPacketSize opts (s + 1) = Some b"
      "snd (pingTick opts a (s + 1) t) = Some r"
      "pingLoop opts a s (t # ts) = (fst (pingTick opts a (s + 1) t), Terminated r)"
  | (go) b where
      "\<not> (sint (PingOptions.Count opts) > 0 \<and> sint s \<ge> sint (PingOptions.Count opts))"
      "currentPacketSize opts (s + 1) = Some b"
      "snd (pingTick opts a (s + 1) t) = None"
      "pingLoop opts a s (t # ts)
         = (fst (pingTick opts a (s + 1) t) @ fst (pingLoop opts a (s + 1) ts),
            snd (pingLoop opts a (s + 1) ts))"
proof (cases "sint (PingOptions.Count opts) > 0 \<and> sint s \<ge> sint (PingOptions.Count opts)")
  case True
  then show ?thesis using stop by simp
next
  case ns: False
  then have loop: "pingLoop opts a s (t # ts) =
      (case pingTick opts a (s + 1) t of
         (evs, Some r) \<Rightarrow> (evs, Terminated r)
       | (evs, None) \<Rightarrow> (evs @ fst (pingLoop opts a (s + 1) ts),
                          snd (pingLoop opts a (s + 1) ts)))"
    by (auto split: prod.splits option.splits)
  obtain evs r where tick: "pingTick opts a (s + 1) t = (evs, r)"
    by (cases "pingTick opts a (s + 1) t")
  show ?thesis
  proof (cases "currentPacketSize opts (s + 1)")
    case None
    with ns show ?thesis by (intro panic) (simp_all add: loop pingTick_panic del: pingLoop.simps)
  next
    case (Some b)
    show ?thesis
    proof (cases r)
      case None
      with ns Some tick show ?thesis by (intro go [of b]) (simp_all add: loop del: pingLoop.simps)
    next
      case (Some r')
      with ns \<open>currentPacketSize opts (s + 1) = Some b\<close> tick show ?thesis
        by (intro halt [of b r']) (simp_all add: loop del: pingLoop.simps)
    qed
  qed
qed

declare pingLoop.simps(2) [simp del]

lemma sint_of_nat_small:
  "int j < 2 ^ 63 \<Longrightarrow> sint (word_of_nat j :: go_int) = int j"
  by (simp add: signed_of_nat signed_take_bit_int_eq_self)

lemma sint_go_int_lt: "sint (w :: go_int) < 2 ^ 63"
  using sint_lt [of w] by simp

lemma pingLoop_Cons_eq:
  "pingLoop opts a s (t # ts) =
    (if sint (PingOptions.Count opts) > 0 \<and> sint s \<ge> sint (PingOptions.Count opts)
     then ([], Terminated CountExhausted)
     else case currentPacketSize opts (s + 1) of
        None \<Rightarrow> ([], Terminated (Panicked IntegerDivideByZero))
      | Some b \<Rightarrow>
         (case snd (pingTick opts a (s + 1) t) of
            Some r \<Rightarrow> (fst (pingTick opts a (s + 1) t), Terminated r)
          | None \<Rightarrow> (fst (pingTick opts a (s + 1) t) @ fst (pingLoop opts a (s + 1) ts),
                      snd (pingLoop opts a (s + 1) ts))))"
  by (cases rule: pingLoop_Cons_cases [of opts s a t ts]) auto

lemma quiet_no_report_writes:
  "IsQuiet opts \<Longrightarrow> report_writes (fst (pingLoop opts a s ts)) = []"
proof (induction ts arbitrary: s)
  case Nil
  then show ?case by simp
next
  case (Cons t ts)
  show ?case
  proof (cases rule: pingLoop_Cons_cases [of opts s a t ts])
    case stop
    then show ?thesis by simp
  next
    case panic
    then show ?thesis by simp
  next
    case (halt b r)
    then show ?thesis using Cons.prems by (simp add: pingTick_report_writes)
  next
    case (go b)
    then show ?thesis using Cons by (simp add: pingTick_report_writes)
  qed
qed

lemma tick_report_fields [simp]:
  "Sequence (tick_report opts a s t b) = s - 1"
  "Bytes (tick_report opts a s t b) = b"
  "Success (tick_report opts a s t b) = (get_result t \<noteq> None)"
  by (simp_all add: tick_report_def createPongMessage_def measureLatency_def split: option.splits)

lemma report_writes_nth:
  "k < length (report_writes (fst (pingLoop opts a s ts))) \<Longrightarrow>
     Sequence (report_writes (fst (pingLoop opts a s ts)) ! k) = s + of_nat k
     \<and> currentPacketSize opts (s + of_nat k + 1)
         = Some (Bytes (report_writes (fst (pingLoop opts a s ts)) ! k))
     \<and> k < length ts
     \<and> Success (report_writes (fst (pingLoop opts a s ts)) ! k) = (get_result (ts ! k) \<noteq> None)"
proof (induction ts arbitrary: s k)
  case Nil
  then show ?case by simp
next
  case (Cons t ts)
  have nq: "\<not> IsQuiet opts"
  proof
    assume "IsQuiet opts"
    from quiet_no_report_writes [OF this] Cons.prems show False by simp
  qed
  show ?case
  proof (cases rule: pingLoop_Cons_cases [of opts s a t ts])
    case stop
    then show ?thesis using Cons.prems by simp
  next
    case panic
    then show ?thesis using Cons.prems by simp
  next
    case (halt b r)
    then show ?thesis using Cons.prems nq by (simp add: pingTick_report_writes)
  next
    case (go b)
    show ?thesis
    proof (cases k)
      case 0
      then show ?thesis using go nq by (simp add: pingTick_report_writes)
    next
      case (Suc k')
      then have "k' < length (report_writes (fst (pingLoop opts a (s + 1) ts)))"
        using Cons.prems go nq by (simp add: pingTick_report_writes)
      from Cons.IH [OF this] show ?thesis
        using go nq Suc by (simp add: pingTick_report_writes add.assoc add.commute)
    qed
  qed
qed


lemma loop_count_exhausted:
  assumes "0 < sint (PingOptions.Count opts)"
    and "currentPacketSize opts 0 \<noteq> None"
    and "int j \<le> sint (PingOptions.Count opts)"
    and "nat (sint (PingOptions.Count opts)) - j < length ts"
    and "\<forall>t \<in> set (take (nat (sint (PingOptions.Count opts)) - j) ts).
           (IsQuiet opts \<or> writeJSON_ok t) \<and> (IsFlood opts \<or> writeControl_ok t)"
  shows "snd (pingLoop opts a (of_nat j) ts) = Terminated CountExhausted
       \<and> measurements (fst (pingLoop opts a (of_nat j) ts))
           = nat (sint (PingOptions.Count opts)) - j
       \<and> map Sequence (report_writes (fst (pingLoop opts a (of_nat j) ts)))
           = (if IsQuiet opts then []
              else map of_nat [j..<nat (sint (PingOptions.Count opts))])
       \<and> reports (fst (pingLoop opts a (of_nat j) ts))
           = report_writes (fst (pingLoop opts a (of_nat j) ts))"
  using assms(3-5)
proof (induction ts arbitrary: j)
  case Nil
  then show ?case by simp
next
  case (Cons t ts)
  let ?c = "nat (sint (PingOptions.Count opts))"
  have cj: "int j < 2 ^ 63" using Cons.prems(1) sint_go_int_lt [of "PingOptions.Count opts"] by linarith
  have sj: "sint (word_of_nat j :: go_int) = int j" by (rule sint_of_nat_small [OF cj])
  obtain b where b: "currentPacketSize opts (of_nat j + 1) = Some b"
    using assms(2) currentPacketSize_indep [of opts 0 "of_nat j + 1"] by auto
  show ?case
  proof (cases "j = ?c")
    case True
    then have "sint (PingOptions.Count opts) \<le> int j" by simp
    then show ?thesis using assms(1) True by (simp add: pingLoop_Cons_eq sj)
  next
    case False
    then have lt: "int j < sint (PingOptions.Count opts)" and lt': "j < ?c"
      using Cons.prems(1) by linarith+
    from lt' have "?c - j = Suc (?c - Suc j)" by simp
    then have tk: "take (?c - j) (t # ts) = t # take (?c - Suc j) ts"
      by (simp only: take_Suc_Cons)
    have okt: "(IsQuiet opts \<or> writeJSON_ok t) \<and> (IsFlood opts \<or> writeControl_ok t)"
      using Cons.prems(3) unfolding tk by simp
    have go: "snd (pingTick opts a (of_nat j + 1) t) = None"
      using okt by (auto simp add: pingTick_snd [OF b])
    have IH: "snd (pingLoop opts a (of_nat (Suc j)) ts) = Terminated CountExhausted
       \<and> measurements (fst (pingLoop opts a (of_nat (Suc j)) ts)) = ?c - Suc j
       \<and> map Sequence (report_writes (fst (pingLoop opts a (of_nat (Suc j)) ts)))
           = (if IsQuiet opts then [] else map of_nat [Suc j..<?c])
       \<and> reports (fst (pingLoop opts a (of_nat (Suc j)) ts))
           = report_writes (fst (pingLoop opts a (of_nat (Suc j)) ts))"
    proof (rule Cons.IH)
      show "int (Suc j) \<le> sint (PingOptions.Count opts)" using lt by simp
      show "?c - Suc j < length ts" using Cons.prems(2) lt' by simp
      show "\<forall>t\<in>set (take (?c - Suc j) ts).
          (IsQuiet opts \<or> writeJSON_ok t) \<and> (IsFlood opts \<or> writeControl_ok t)"
        using Cons.prems(3) unfolding tk by simp
    qed
    have S: "word_of_nat j + 1 = (word_of_nat (Suc j) :: go_int)" by simp
    have upt: "[j..<?c] = j # [Suc j..<?c]" using lt' by (simp add: upt_conv_Cons)
    show ?thesis
      using lt IH okt lt' unfolding pingLoop_Cons_eq b go S [symmetric] upt
      by (auto simp add: sj pingTick_measurements [OF b] pingTick_report_writes [OF b]
          pingTick_reports [OF b])
  qed
qed

lemma quiet_liveness_per_tick:
  "IsQuiet opts \<Longrightarrow> \<not> IsFlood opts \<Longrightarrow>
     length (liveness_checks (fst (pingLoop opts a s ts)))
       = measurements (fst (pingLoop opts a s ts))"
proof (induction ts arbitrary: s)
  case Nil
  then show ?case by simp
next
  case (Cons t ts)
  show ?case
  proof (cases rule: pingLoop_Cons_cases [of opts s a t ts])
    case stop
    then show ?thesis by simp
  next
    case panic
    then show ?thesis by simp
  next
    case (halt b r)
    then show ?thesis using Cons.prems
      by (simp add: pingTick_measurements pingTick_liveness_checks)
  next
    case (go b)
    then show ?thesis using Cons.prems Cons.IH [of "s + 1"]
      by (simp add: pingTick_measurements pingTick_liveness_checks)
  qed
qed

lemma currentPacketSize_quiet [simp]:
  "currentPacketSize (opts\<lparr>IsQuiet := q\<rparr>) s = currentPacketSize opts s"
  by (simp add: currentPacketSize_def Let_def)

lemma quiet_same_ticks:
  "IsQuiet opts \<Longrightarrow>
     snd (pingLoop opts a s ts)
       = snd (pingLoop (opts\<lparr>IsQuiet := False\<rparr>) a s (map (\<lambda>t. t\<lparr>writeJSON_ok := True\<rparr>) ts))
     \<and> measurements (fst (pingLoop opts a s ts))
       = measurements (fst (pingLoop (opts\<lparr>IsQuiet := False\<rparr>) a s
           (map (\<lambda>t. t\<lparr>writeJSON_ok := True\<rparr>) ts)))
     \<and> liveness_checks (fst (pingLoop opts a s ts))
       = liveness_checks (fst (pingLoop (opts\<lparr>IsQuiet := False\<rparr>) a s
           (map (\<lambda>t. t\<lparr>writeJSON_ok := True\<rparr>) ts)))"
proof (induction ts arbitrary: s)
  case Nil
  then show ?case by simp
next
  case (Cons t ts)
  show ?case
  proof (cases "currentPacketSize opts (s + 1)")
    case None
    then show ?thesis by (simp add: pingLoop_Cons_eq)
  next
    case (Some b)
    then have b': "currentPacketSize (opts\<lparr>IsQuiet := False\<rparr>) (s + 1) = Some b" by simp
    show ?thesis
      using Cons.IH [of "s + 1"] Cons.prems
      by (simp add: pingLoop_Cons_eq Some pingTick_snd [OF Some] pingTick_snd [OF b']
          pingTick_measurements [OF Some] pingTick_measurements [OF b']
          pingTick_liveness_checks [OF Some] pingTick_liveness_checks [OF b'])
  qed
qed


lemma nonquiet_report_per_tick:
  "\<not> IsQuiet opts \<Longrightarrow>
     length (report_writes (fst (pingLoop opts a s ts)))
       = measurements (fst (pingLoop opts a s ts))"
proof (induction ts arbitrary: s)
  case Nil
  then show ?case by simp
next
  case (Cons t ts)
  show ?case
  proof (cases rule: pingLoop_Cons_cases [of opts s a t ts])
    case stop
    then show ?thesis by simp
  next
    case panic
    then show ?thesis by simp
  next
    case (halt b r)
    then show ?thesis using Cons.prems
      by (simp add: pingTick_measurements pingTick_report_writes)
  next
    case (go b)
    then show ?thesis using Cons.prems Cons.IH [of "s + 1"]
      by (simp add: pingTick_measurements pingTick_report_writes)
  qed
qed

lemma probe_outcome_irrelevant:
  "map (\<lambda>t. t\<lparr>get_result := None\<rparr>) ts' = map (\<lambda>t. t\<lparr>get_result := None\<rparr>) ts \<Longrightarrow>
     snd (pingLoop opts a s ts') = snd (pingLoop opts a s ts)
     \<and> measurements (fst (pingLoop opts a s ts')) = measurements (fst (pingLoop opts a s ts))
     \<and> liveness_checks (fst (pingLoop opts a s ts'))
         = liveness_checks (fst (pingLoop opts a s ts))
     \<and> map Sequence (report_writes (fst (pingLoop opts a s ts')))
         = map Sequence (report_writes (fst (pingLoop opts a s ts)))
     \<and> map Bytes (report_writes (fst (pingLoop opts a s ts')))
         = map Bytes (report_writes (fst (pingLoop opts a s ts)))"
proof (induction ts arbitrary: s ts')
  case Nil
  then show ?case by simp
next
  case (Cons t ts)
  then obtain t' ts'' where ts': "ts' = t' # ts''"
    and e: "t'\<lparr>get_result := None\<rparr> = t\<lparr>get_result := None\<rparr>"
    and r: "map (\<lambda>t. t\<lparr>get_result := None\<rparr>) ts'' = map (\<lambda>t. t\<lparr>get_result := None\<rparr>) ts"
    by (cases ts') auto
  have w: "writeJSON_ok t' = writeJSON_ok t" using arg_cong [OF e, of writeJSON_ok] by simp
  have c: "writeControl_ok t' = writeControl_ok t"
    using arg_cong [OF e, of writeControl_ok] by simp
  show ?case
  proof (cases "currentPacketSize opts (s + 1)")
    case None
    then show ?thesis by (simp add: ts' pingLoop_Cons_eq)
  next
    case (Some b)
    show ?thesis
      using Cons.IH [OF r, of "s + 1"]
      by (simp add: ts' pingLoop_Cons_eq Some w c pingTick_snd [OF Some]
          pingTick_measurements [OF Some] pingTick_liveness_checks [OF Some]
          pingTick_report_writes [OF Some])
  qed
qed

lemma erase_update:
  "map (\<lambda>t. t\<lparr>get_result := None\<rparr>) (ts[k := (ts ! k)\<lparr>get_result := g\<rparr>])
     = map (\<lambda>t. t\<lparr>get_result := None\<rparr>) ts"
proof (cases "k < length ts")
  case True
  then show ?thesis by (simp add: map_update list_update_same_conv)
next
  case False
  then have "ts[k := (ts ! k)\<lparr>get_result := g\<rparr>] = ts"
    by (intro list_update_beyond) simp
  then show ?thesis by (simp only:)
qed

lemma pingTick_plain_obs:
  "snd (pingTick_plain a s t) =
     (if \<not> writeJSON_ok t then Some WriteError
      else if \<not> writeControl_ok t then Some PeerUnreachable else None)"
  "measurements (fst (pingTick_plain a s t)) = 1"
  "map Success (report_writes (fst (pingTick_plain a s t))) = [False]"
  by (simp_all add: pingTick_plain_def createPongMessage_plain_def Let_def split: prod.splits)

lemma pingLoop_plain_Cons_eq:
  "pingLoop_plain a s (t # ts) =
    (case snd (pingTick_plain a (s + 1) t) of
       Some r \<Rightarrow> (fst (pingTick_plain a (s + 1) t), Terminated r)
     | None \<Rightarrow> (fst (pingTick_plain a (s + 1) t) @ fst (pingLoop_plain a (s + 1) ts),
                 snd (pingLoop_plain a (s + 1) ts)))"
  by (simp split: prod.splits option.splits)

declare pingLoop_plain.simps(2) [simp del]

lemma plain_probe_outcome_irrelevant:
  "map (\<lambda>t. t\<lparr>get_result := None\<rparr>) ts' = map (\<lambda>t. t\<lparr>get_result := None\<rparr>) ts \<Longrightarrow>
     snd (pingLoop_plain a s ts') = snd (pingLoop_plain a s ts)
     \<and> measurements (fst (pingLoop_plain a s ts')) = measurements (fst (pingLoop_plain a s ts))"
proof (induction ts arbitrary: s ts')
  case Nil
  then show ?case by simp
next
  case (Cons t ts)
  then obtain t' ts'' where ts': "ts' = t' # ts''"
    and e: "t'\<lparr>get_result := None\<rparr> = t\<lparr>get_result := None\<rparr>"
    and r: "map (\<lambda>t. t\<lparr>get_result := None\<rparr>) ts'' = map (\<lambda>t. t\<lparr>get_result := None\<rparr>) ts"
    by (cases ts') auto
  have w: "writeJSON_ok t' = writeJSON_ok t" using arg_cong [OF e, of writeJSON_ok] by simp
  have c: "writeControl_ok t' = writeControl_ok t"
    using arg_cong [OF e, of writeControl_ok] by simp
  show ?case
    using Cons.IH [OF r, of "s + 1"]
    by (simp add: ts' pingLoop_plain_Cons_eq pingTick_plain_obs w c)
qed

lemma plain_reports_unsuccessful:
  "map Success (report_writes (fst (pingLoop_plain a s ts)))
     = replicate (measurements (fst (pingLoop_plain a s ts))) False"
proof (induction ts arbitrary: s)
  case Nil
  then show ?case by simp
next
  case (Cons t ts)
  show ?case
    using Cons [of "s + 1"]
    by (simp add: pingLoop_plain_Cons_eq pingTick_plain_obs split: option.splits)
qed

section \<open>The arithmetic of the sweep\<close>

text \<open>
  Where nothing wraps, the byte size computed on 64-bit words is the one computed on the
  integers: the remainder of a non-negative dividend by a positive divisor is the same
  for the truncating and for the flooring division.
\<close>

lemma stb63: "- (2 ^ 63) \<le> (k::int) \<Longrightarrow> k < 2 ^ 63 \<Longrightarrow> signed_take_bit 63 k = k"
  by (rule signed_take_bit_int_eq_self)

lemma sint_go_int_ge: "- (2 ^ 63) \<le> sint (w :: go_int)"
  using sint_ge [of w] by simp

lemma sint_go_rem:
  assumes "0 \<le> sint a" and "0 < sint b"
  shows "sint (go_rem a b) = sint a mod sint b"
proof -
  have m: "sint a smod sint b = sint a mod sint b"
    using assms by (simp add: smod_mod_positive)
  have "0 \<le> sint a mod sint b" and "sint a mod sint b < sint b"
    using assms by simp_all
  then have "- (2 ^ 63) \<le> sint a mod sint b" and "sint a mod sint b < 2 ^ 63"
    using sint_go_int_lt [of b] by linarith+
  then show ?thesis
    by (simp add: go_rem_def m sint_sbintrunc' stb63)
qed

lemma sweep_value_int:
  fixes mn mx inc :: go_int
  assumes "sint mn < sint mx" and "0 < sint inc"
    and "sint mx - sint mn + 1 < 2 ^ 63"
    and "int k * sint inc < 2 ^ 63"
  shows "sint (mn + go_rem (of_nat k * inc) (mx - mn + 1))
           = sint mn + (int k * sint inc) mod (sint mx - sint mn + 1)"
proof -
  have k: "int k < 2 ^ 63"
  proof -
    have "int k * 1 \<le> int k * sint inc" using assms(2) by (intro mult_left_mono) simp_all
    then show ?thesis using assms(4) by simp
  qed
  have sk: "sint (word_of_nat k :: go_int) = int k" by (rule sint_of_nat_small [OF k])
  have "0 \<le> int k * sint inc" using assms(2) by simp
  then have prod: "sint (of_nat k * inc) = int k * sint inc"
    using assms(4) by (simp add: sint_word_mult sk stb63)
  have d: "sint (mx - mn) = sint mx - sint mn"
    using assms(1,3) by (simp add: sint_word_diff stb63)
  have span: "sint (mx - mn + 1) = sint mx - sint mn + 1"
    using assms(1,3) by (simp add: sint_word_add d stb63)
  have r: "sint (go_rem (of_nat k * inc) (mx - mn + 1))
      = (int k * sint inc) mod (sint mx - sint mn + 1)"
    using assms(1) \<open>0 \<le> int k * sint inc\<close> by (simp add: sint_go_rem prod span)
  have pos: "0 < sint mx - sint mn + 1" using assms(1) by simp
  have "0 \<le> (int k * sint inc) mod (sint mx - sint mn + 1)"
    and "(int k * sint inc) mod (sint mx - sint mn + 1) < sint mx - sint mn + 1"
    using pos_mod_sign [OF pos] pos_mod_bound [OF pos] by simp_all
  then have "- (2 ^ 63) \<le> sint mn + (int k * sint inc) mod (sint mx - sint mn + 1)"
    and "sint mn + (int k * sint inc) mod (sint mx - sint mn + 1) < 2 ^ 63"
    using sint_go_int_ge [of mn] sint_go_int_lt [of mx] by linarith+
  then show ?thesis
    by (simp add: sint_word_add r stb63)
qed

lemma resolved_sweep:
  assumes "snd (resolvePingOptions msg) = None"
    and "0 < sint (PingOptions.SweepMaxSize (fst (resolvePingOptions msg)))"
  shows "sint (PingOptions.SweepMinSize (fst (resolvePingOptions msg)))
           < sint (PingOptions.SweepMaxSize (fst (resolvePingOptions msg)))"
    and "0 < sint (PingOptions.SweepIncrSize (fst (resolvePingOptions msg)))"
proof -
  have "spec_rule 5 msg" using assms(1) unfolding validate_all_rules ball8 by simp
  then show "sint (PingOptions.SweepMinSize (fst (resolvePingOptions msg)))
           < sint (PingOptions.SweepMaxSize (fst (resolvePingOptions msg)))"
    and "0 < sint (PingOptions.SweepIncrSize (fst (resolvePingOptions msg)))"
    using assms(2) unfolding spec_rules by (simp_all add: resolve_fst)
qed

section \<open>The handler\<close>

text \<open>
  The readings of the trace of a handler, in terms of the loop it runs.
\<close>

lemma PingHandler_resolved:
  assumes "upgrade_ok io" and "readJSON io = Some msg"
    and "snd (resolvePingOptions msg) = None"
  shows "PingHandler io =
    (let opts = fst (resolvePingOptions msg);
         address = formatAddress (PingMessage.Address msg);
         start = Log (LogPing address (PingOptions.PacketSize opts))
     in if sint (PingOptions.Wait opts * 1000000000) \<le> 0
        then ([start, ConnClose], Terminated (Panicked NonPositiveTickerInterval))
        else
          (let preload = (if sint (PingOptions.Preload opts) > 0
                 then replicate (nat (sint (PingOptions.Preload opts))) (GoPreload address)
                 else []);
               (evs, st) = pingLoop opts address 0 (ticks io)
           in (start # preload @ evs @ (if st = Running then [] else [ConnClose]), st)))"
  using assms by (cases "resolvePingOptions msg") (simp add: PingHandler_def)

lemma handler_ticker_panic:
  assumes "upgrade_ok io" and "readJSON io = Some msg"
    and "snd (resolvePingOptions msg) = None"
    and "sint (PingOptions.Wait (fst (resolvePingOptions msg)) * 1000000000) \<le> 0"
  shows "PingHandler io =
     ([Log (LogPing (formatAddress (PingMessage.Address msg))
              (PingOptions.PacketSize (fst (resolvePingOptions msg)))), ConnClose],
      Terminated (Panicked NonPositiveTickerInterval))"
  using assms(4) by (simp add: PingHandler_resolved [OF assms(1-3)])

lemma handler_loop:
  assumes "upgrade_ok io" and "readJSON io = Some msg"
    and "snd (resolvePingOptions msg) = None"
    and "0 < sint (PingOptions.Wait (fst (resolvePingOptions msg)) * 1000000000)"
  shows "snd (PingHandler io) = snd (pingLoop (fst (resolvePingOptions msg))
            (formatAddress (PingMessage.Address msg)) 0 (ticks io))"
    and "report_writes (fst (PingHandler io)) = report_writes (fst (pingLoop
            (fst (resolvePingOptions msg)) (formatAddress (PingMessage.Address msg)) 0 (ticks io)))"
    and "reports (fst (PingHandler io)) = reports (fst (pingLoop
            (fst (resolvePingOptions msg)) (formatAddress (PingMessage.Address msg)) 0 (ticks io)))"
    and "measurements (fst (PingHandler io)) = measurements (fst (pingLoop
            (fst (resolvePingOptions msg)) (formatAddress (PingMessage.Address msg)) 0 (ticks io)))"
    and "liveness_checks (fst (PingHandler io)) = liveness_checks (fst (pingLoop
            (fst (resolvePingOptions msg)) (formatAddress (PingMessage.Address msg)) 0 (ticks io)))"
  using assms(4)
  by (simp_all add: PingHandler_resolved [OF assms(1-3)] Let_def split: prod.splits)

lemma handler_no_session:
  assumes "\<not> upgrade_ok io \<or> readJSON io = None
     \<or> (\<exists>msg. readJSON io = Some msg \<and> snd (resolvePingOptions msg) \<noteq> None)"
  shows "filter is_write (fst (PingHandler io)) = []"
    and "report_writes (fst (PingHandler io)) = []"
    and "measurements (fst (PingHandler io)) = 0"
  using assms
  by (auto simp add: PingHandler_def split: option.splits prod.splits)

lemma handler_report_writes_nth:
  assumes "readJSON io = Some msg"
    and "k < length (report_writes (fst (PingHandler io)))"
  shows "Sequence (report_writes (fst (PingHandler io)) ! k) = of_nat k"
    and "currentPacketSize (fst (resolvePingOptions msg)) (of_nat k + 1)
          = Some (Bytes (report_writes (fst (PingHandler io)) ! k))"
    and "k < length (ticks io)"
    and "Success (report_writes (fst (PingHandler io)) ! k)
          = (get_result (ticks io ! k) \<noteq> None)"
    and "upgrade_ok io" and "snd (resolvePingOptions msg) = None"
    and "0 < sint (PingOptions.Wait (fst (resolvePingOptions msg)) * 1000000000)"
proof -
  show u: "upgrade_ok io"
  proof (rule ccontr)
    assume "\<not> upgrade_ok io"
    then have "report_writes (fst (PingHandler io)) = []"
      by (intro handler_no_session(2)) simp
    with assms(2) show False by simp
  qed
  show v: "snd (resolvePingOptions msg) = None"
  proof (rule ccontr)
    assume "snd (resolvePingOptions msg) \<noteq> None"
    then have "report_writes (fst (PingHandler io)) = []"
      using assms(1) by (intro handler_no_session(2)) simp
    with assms(2) show False by simp
  qed
  show w: "0 < sint (PingOptions.Wait (fst (resolvePingOptions msg)) * 1000000000)"
    using assms(2) handler_ticker_panic [OF u assms(1) v] by (cases ?thesis) simp_all
  note l = handler_loop [OF u assms(1) v w]
  from assms(2) have "k < length (report_writes (fst (pingLoop (fst (resolvePingOptions msg))
            (formatAddress (PingMessage.Address msg)) 0 (ticks io))))"
    by (simp only: l)
  from report_writes_nth [OF this]
  show "Sequence (report_writes (fst (PingHandler io)) ! k) = of_nat k"
    and "currentPacketSize (fst (resolvePingOptions msg)) (of_nat k + 1)
          = Some (Bytes (report_writes (fst (PingHandler io)) ! k))"
    and "k < length (ticks io)"
    and "Success (report_writes (fst (PingHandler io)) ! k)
          = (get_result (ticks io ! k) \<noteq> None)"
    by (simp_all add: l)
qed


lemma handler_obs:
  assumes "upgrade_ok io" and "readJSON io = Some msg"
    and "snd (resolvePingOptions msg) = None"
  shows "snd (PingHandler io) =
      (if sint (PingOptions.Wait (fst (resolvePingOptions msg)) * 1000000000) \<le> 0
       then Terminated (Panicked NonPositiveTickerInterval)
       else snd (pingLoop (fst (resolvePingOptions msg))
            (formatAddress (PingMessage.Address msg)) 0 (ticks io)))"
    and "report_writes (fst (PingHandler io)) =
      (if sint (PingOptions.Wait (fst (resolvePingOptions msg)) * 1000000000) \<le> 0 then []
       else report_writes (fst (pingLoop (fst (resolvePingOptions msg))
            (formatAddress (PingMessage.Address msg)) 0 (ticks io))))"
    and "reports (fst (PingHandler io)) =
      (if sint (PingOptions.Wait (fst (resolvePingOptions msg)) * 1000000000) \<le> 0 then []
       else reports (fst (pingLoop (fst (resolvePingOptions msg))
            (formatAddress (PingMessage.Address msg)) 0 (ticks io))))"
    and "measurements (fst (PingHandler io)) =
      (if sint (PingOptions.Wait (fst (resolvePingOptions msg)) * 1000000000) \<le> 0 then 0
       else measurements (fst (pingLoop (fst (resolvePingOptions msg))
            (formatAddress (PingMessage.Address msg)) 0 (ticks io))))"
    and "liveness_checks (fst (PingHandler io)) =
      (if sint (PingOptions.Wait (fst (resolvePingOptions msg)) * 1000000000) \<le> 0 then []
       else liveness_checks (fst (pingLoop (fst (resolvePingOptions msg))
            (formatAddress (PingMessage.Address msg)) 0 (ticks io))))"
  by (simp_all add: PingHandler_resolved [OF assms] Let_def split: prod.splits)

lemma resolve_quiet_twin:
  "snd (resolvePingOptions (msg\<lparr>Quiet := q\<rparr>)) = snd (resolvePingOptions msg)"
  "fst (resolvePingOptions (msg\<lparr>Quiet := q\<rparr>))
     = (fst (resolvePingOptions msg))\<lparr>IsQuiet := getOrDefault q False\<rparr>"
proof -
  show s: "snd (resolvePingOptions (msg\<lparr>Quiet := q\<rparr>)) = snd (resolvePingOptions msg)"
    by (simp add: resolve_validates)
  show "fst (resolvePingOptions (msg\<lparr>Quiet := q\<rparr>))
     = (fst (resolvePingOptions msg))\<lparr>IsQuiet := getOrDefault q False\<rparr>"
    by (simp add: resolve_fst [of "msg\<lparr>Quiet := q\<rparr>"] s) (simp add: resolve_fst [of msg])
qed


lemma plain_handler_obs:
  assumes "upgrade_ok io" and "readJSON io = Some msg"
  shows "snd (PingHandler_plain io)
           = snd (pingLoop_plain (formatAddress (PingMessage.Address msg)) 0 (ticks io))"
    and "measurements (fst (PingHandler_plain io))
           = measurements (fst (pingLoop_plain (formatAddress (PingMessage.Address msg)) 0 (ticks io)))"
    and "report_writes (fst (PingHandler_plain io))
           = report_writes (fst (pingLoop_plain (formatAddress (PingMessage.Address msg)) 0 (ticks io)))"
  using assms by (simp_all add: PingHandler_plain_def Let_def split: prod.splits)


lemma with_probe_simps [simp]:
  "upgrade_ok (with_probe io k g) = upgrade_ok io"
  "readJSON (with_probe io k g) = readJSON io"
  "map (\<lambda>t. t\<lparr>get_result := None\<rparr>) (ticks (with_probe io k g))
     = map (\<lambda>t. t\<lparr>get_result := None\<rparr>) (ticks io)"
  by (simp_all add: with_probe_def erase_update)



section \<open>Sessions\<close>

text \<open>
  C8. A session whose setup fails, because the read of the configuration message
  fails or because option resolution returns an error, ends without any write on the
  connection: no report, no liveness check, no measurement. Its whole trace is one log
  line and the close of the connection, and it ends with \<open>ReadError\<close> or with
  \<open>InvalidOption\<close>.
\<close>

theorem setup_failure_silent:
  assumes "upgrade_ok io"
    and "readJSON io = None
       \<or> (\<exists>msg. readJSON io = Some msg \<and> snd (resolvePingOptions msg) \<noteq> None)"
  shows "filter is_write (fst (PingHandler io)) = []
       \<and> report_writes (fst (PingHandler io)) = []
       \<and> measurements (fst (PingHandler io)) = 0
       \<and> last (fst (PingHandler io)) = ConnClose
       \<and> (readJSON io = None \<longrightarrow>
            PingHandler io = ([Log LogReadFailed, ConnClose], Terminated ReadError))
       \<and> (\<forall>msg e. readJSON io = Some msg \<and> snd (resolvePingOptions msg) = Some e \<longrightarrow>
            PingHandler io
              = ([Log (LogInvalidOptions e), ConnClose], Terminated (InvalidOption e)))"
proof -
  have r: "PingHandler io = ([Log LogReadFailed, ConnClose], Terminated ReadError)"
    if "readJSON io = None"
    using assms(1) that by (simp add: PingHandler_def)
  have i: "PingHandler io = ([Log (LogInvalidOptions e), ConnClose], Terminated (InvalidOption e))"
    if "readJSON io = Some msg" and "snd (resolvePingOptions msg) = Some e" for msg e
    using handler_invalid [OF assms(1) that] .
  from assms(2) have "filter is_write (fst (PingHandler io)) = []
       \<and> report_writes (fst (PingHandler io)) = []
       \<and> measurements (fst (PingHandler io)) = 0
       \<and> last (fst (PingHandler io)) = ConnClose"
  proof
    assume "readJSON io = None"
    then show ?thesis by (simp add: r)
  next
    assume "\<exists>msg. readJSON io = Some msg \<and> snd (resolvePingOptions msg) \<noteq> None"
    then obtain msg e where "readJSON io = Some msg" "snd (resolvePingOptions msg) = Some e"
      by auto
    then show ?thesis by (simp add: i)
  qed
  with r i show ?thesis by blast
qed

theorem setup_failure_silent_witness:
  "upgrade_ok read_fail_io \<and> readJSON read_fail_io = None
     \<and> PingHandler read_fail_io = ([Log LogReadFailed, ConnClose], Terminated ReadError)
     \<and> filter is_write (fst (PingHandler read_fail_io)) = []
     \<and> upgrade_ok bad_ttl_io \<and> readJSON bad_ttl_io = Some bad_ttl_msg
     \<and> snd (resolvePingOptions bad_ttl_msg) = Some TTLOutOfRange
     \<and> filter is_write (fst (PingHandler bad_ttl_io)) = []
     \<and> snd (PingHandler bad_ttl_io) = Terminated (InvalidOption TTLOutOfRange)"
proof -
  have h1: "upgrade_ok read_fail_io" and h2: "readJSON read_fail_io = None"
    by (simp_all add: read_fail_io_def)
  have g1: "upgrade_ok bad_ttl_io" and g2: "readJSON bad_ttl_io = Some bad_ttl_msg"
    by (simp_all add: bad_ttl_io_def)
  have g3: "snd (resolvePingOptions bad_ttl_msg) = Some TTLOutOfRange"
    by (simp add: resolve_validates bad_ttl_msg_def no_overrides_def defaults)
  have g: "readJSON bad_ttl_io = None
       \<or> (\<exists>msg. readJSON bad_ttl_io = Some msg \<and> snd (resolvePingOptions msg) \<noteq> None)"
    using g2 g3 by simp
  show ?thesis
    using h1 h2 g1 g2 g3 setup_failure_silent [OF h1 disjI1 [OF h2]]
      setup_failure_silent [OF g1 g]
    by simp
qed


text \<open>
  C2. The claim gives the byte size of tick \<open>n\<close> as the fixed packet size when
  sweepMax \<open>\<le> 0\<close>, and as sweepMin plus \<open>(n - 1) * sweepIncrement\<close> modulo
  \<open>sweepMax - sweepMin + 1\<close> otherwise. The configuration with sweepMin 10, sweepMax 20
  and the largest \<^verbatim>\<open>int\<close> as sweepIncrement passes validation, which asks of the increment
  only that it is positive. On tick 3 the product \<open>2 * sweepIncrement\<close> wraps to \<open>-2\<close>, of
  which \<^verbatim>\<open>%\<close> leaves \<open>-2\<close>: the report carries the byte size 8, below sweepMin, where the
  formula gives 13.
\<close>

theorem sweep_overflow_below_minimum:
  "snd (resolvePingOptions overflow_msg) = None
     \<and> PingOptions.SweepMinSize (fst (resolvePingOptions overflow_msg)) = 10
     \<and> PingOptions.SweepMaxSize (fst (resolvePingOptions overflow_msg)) = 20
     \<and> PingOptions.SweepIncrSize (fst (resolvePingOptions overflow_msg)) = 9223372036854775807
     \<and> map Sequence (report_writes (fst (PingHandler overflow_io))) = [0, 1, 2]
     \<and> map Bytes (report_writes (fst (PingHandler overflow_io))) = [10, 17, 8]
     \<and> spec_byte_size_int (fst (resolvePingOptions overflow_msg)) 3 = 13"
  by code_simp

text \<open>
  Where nothing wraps, the ramp is the one of the specification. In every session the
  \<open>k\<close>-th report handed to the connection (counted from 0) is the report of tick
  \<open>k + 1\<close>: its sequence field is \<open>k\<close>; its byte size is the fixed packet size when
  sweepMax \<open>\<le> 0\<close>; and when the span and the product \<open>k * sweepIncrement\<close> stay below
  \<open>2\<^sup>6\<^sup>3\<close>, its byte size is the value of the specification for tick \<open>k + 1\<close>. Neither
  the clock nor the outcome of any probe, write or check occurs in that value.
\<close>

lemma sweep_ramp:
  assumes "readJSON io = Some msg"
    and "k < length (report_writes (fst (PingHandler io)))"
  shows "Sequence (report_writes (fst (PingHandler io)) ! k) = of_nat k
       \<and> (sint (PingOptions.SweepMaxSize (fst (resolvePingOptions msg))) \<le> 0 \<longrightarrow>
            Bytes (report_writes (fst (PingHandler io)) ! k)
              = PingOptions.PacketSize (fst (resolvePingOptions msg)))
       \<and> (sint (PingOptions.SweepMaxSize (fst (resolvePingOptions msg)))
              - sint (PingOptions.SweepMinSize (fst (resolvePingOptions msg))) + 1 < 2 ^ 63
            \<and> int k * sint (PingOptions.SweepIncrSize (fst (resolvePingOptions msg))) < 2 ^ 63
          \<longrightarrow> sint (Bytes (report_writes (fst (PingHandler io)) ! k))
                = spec_byte_size_int (fst (resolvePingOptions msg)) (k + 1))"
proof -
  let ?opts = "fst (resolvePingOptions msg)"
  let ?r = "report_writes (fst (PingHandler io)) ! k"
  note f = handler_report_writes_nth [OF assms]
  have b0: "Bytes ?r = PingOptions.PacketSize ?opts"
    if "sint (PingOptions.SweepMaxSize ?opts) \<le> 0"
    using f(2) that by (simp add: currentPacketSize_def)
  have b1: "Bytes ?r = PingOptions.SweepMinSize ?opts
      + go_rem (of_nat k * PingOptions.SweepIncrSize ?opts)
          (PingOptions.SweepMaxSize ?opts - PingOptions.SweepMinSize ?opts + 1)"
    if "0 < sint (PingOptions.SweepMaxSize ?opts)"
    using f(2) that by (auto simp add: currentPacketSize_def Let_def split: if_splits)
  have "sint (Bytes ?r) = spec_byte_size_int ?opts (k + 1)"
    if "sint (PingOptions.SweepMaxSize ?opts) - sint (PingOptions.SweepMinSize ?opts) + 1 < 2 ^ 63"
      and "int k * sint (PingOptions.SweepIncrSize ?opts) < 2 ^ 63"
  proof (cases "sint (PingOptions.SweepMaxSize ?opts) \<le> 0")
    case True
    then show ?thesis by (simp add: b0 spec_byte_size_int_def)
  next
    case False
    then have pos: "0 < sint (PingOptions.SweepMaxSize ?opts)" by simp
    from sweep_value_int [OF resolved_sweep [OF f(6) pos] that] False
    show ?thesis by (simp add: b1 [OF pos] spec_byte_size_int_def)
  qed
  then show ?thesis using f(1) b0 by simp
qed

lemma sweep_ramp_example:
  "readJSON sweep_io = Some sweep_msg
     \<and> 2 < length (report_writes (fst (PingHandler sweep_io)))
     \<and> Sequence (report_writes (fst (PingHandler sweep_io)) ! 2) = 2
     \<and> sint (Bytes (report_writes (fst (PingHandler sweep_io)) ! 2)) = 20
     \<and> spec_byte_size_int (fst (resolvePingOptions sweep_msg)) 3 = 20"
proof -
  have h1: "readJSON sweep_io = Some sweep_msg" by (simp add: sweep_io_def)
  have h2: "2 < length (report_writes (fst (PingHandler sweep_io)))" by code_simp
  have f: "PingOptions.SweepMaxSize (fst (resolvePingOptions sweep_msg)) = 20"
    "PingOptions.SweepMinSize (fst (resolvePingOptions sweep_msg)) = 10"
    "PingOptions.SweepIncrSize (fst (resolvePingOptions sweep_msg)) = 5"
    by (simp_all add: resolve_fst sweep_msg_def no_overrides_def)
  show ?thesis
    using h1 h2 sweep_ramp [OF h1 h2]
    by (simp add: f spec_byte_size_int_def)
qed

text \<open>
  C7. The claim promises that a session with quiet = true writes no report and still
  runs its full tick count. The configuration with quiet = true, count 3 and interval 0
  passes validation; the handler then asks \<^verbatim>\<open>time.NewTicker\<close> for a ticker of duration
  0, which panics: the session writes no report, but it runs none of its 3 ticks and
  makes no liveness check.
\<close>

theorem quiet_zero_interval_session_panics:
  "snd (resolvePingOptions quiet_zero_interval_msg) = None
     \<and> IsQuiet (fst (resolvePingOptions quiet_zero_interval_msg))
     \<and> \<not> IsFlood (fst (resolvePingOptions quiet_zero_interval_msg))
     \<and> PingOptions.Count (fst (resolvePingOptions quiet_zero_interval_msg)) = 3
     \<and> PingOptions.Wait (fst (resolvePingOptions quiet_zero_interval_msg)) = 0
     \<and> PingHandler quiet_zero_interval_io
         = ([Log (LogPing ''http://example.com'' 56), ConnClose],
            Terminated (Panicked NonPositiveTickerInterval))
     \<and> measurements (fst (PingHandler quiet_zero_interval_io)) = 0
     \<and> liveness_checks (fst (PingHandler quiet_zero_interval_io)) = []"
  by (simp add: quiet_zero_interval_io_def quiet_zero_interval_msg_def no_overrides_def
      PingHandler_def resolvePingOptions_def validatePingOptions_def defaults
      formatAddress_def)

text \<open>
  Outside the two panics a quiet session honours its count. When the ticker interval
  is positive and the sweep span is not zero, a session with quiet = true and a resolved
  count \<open>c > 0\<close>, given more than \<open>c\<close> ticks whose liveness checks succeed (none is made
  under flood), hands no report to the connection, makes \<open>c\<close> measurements whatever
  their outcomes, makes \<open>c\<close> liveness checks when flood is false, and ends with
  \<open>CountExhausted\<close>. A liveness check that fails on a tick ends the session on that
  tick with \<open>PeerUnreachable\<close>.
\<close>

lemma quiet_full_count:
  assumes "upgrade_ok io" and "readJSON io = Some msg"
    and "snd (resolvePingOptions msg) = None"
    and "IsQuiet (fst (resolvePingOptions msg))"
    and "0 < sint (PingOptions.Count (fst (resolvePingOptions msg)))"
    and "0 < sint (PingOptions.Wait (fst (resolvePingOptions msg)) * 1000000000)"
    and "currentPacketSize (fst (resolvePingOptions msg)) 0 \<noteq> None"
    and "nat (sint (PingOptions.Count (fst (resolvePingOptions msg)))) < length (ticks io)"
    and "\<forall>t \<in> set (take (nat (sint (PingOptions.Count (fst (resolvePingOptions msg))))) (ticks io)).
           IsFlood (fst (resolvePingOptions msg)) \<or> writeControl_ok t"
  shows "snd (PingHandler io) = Terminated CountExhausted
       \<and> report_writes (fst (PingHandler io)) = []
       \<and> measurements (fst (PingHandler io))
           = nat (sint (PingOptions.Count (fst (resolvePingOptions msg))))
       \<and> (\<not> IsFlood (fst (resolvePingOptions msg)) \<longrightarrow>
            length (liveness_checks (fst (PingHandler io)))
              = nat (sint (PingOptions.Count (fst (resolvePingOptions msg)))))"
proof -
  let ?opts = "fst (resolvePingOptions msg)"
  let ?a = "formatAddress (PingMessage.Address msg)"
  let ?c = "nat (sint (PingOptions.Count ?opts))"
  note l = handler_loop [OF assms(1-3,6)]
  have "snd (pingLoop ?opts ?a (of_nat 0) (ticks io)) = Terminated CountExhausted
       \<and> measurements (fst (pingLoop ?opts ?a (of_nat 0) (ticks io))) = ?c - 0
       \<and> map Sequence (report_writes (fst (pingLoop ?opts ?a (of_nat 0) (ticks io))))
           = (if IsQuiet ?opts then [] else map of_nat [0..<?c])
       \<and> reports (fst (pingLoop ?opts ?a (of_nat 0) (ticks io)))
           = report_writes (fst (pingLoop ?opts ?a (of_nat 0) (ticks io)))"
    using assms(4,5,7,8,9) by (intro loop_count_exhausted) simp_all
  then have e: "snd (PingHandler io) = Terminated CountExhausted"
    and m: "measurements (fst (PingHandler io)) = ?c"
    by (simp_all add: l)
  have r: "report_writes (fst (PingHandler io)) = []"
    using assms(4) by (simp add: l quiet_no_report_writes)
  have "length (liveness_checks (fst (PingHandler io))) = ?c" if "\<not> IsFlood ?opts"
    using quiet_liveness_per_tick [OF assms(4) that, of ?a 0 "ticks io"] m by (simp add: l)
  with e m r show ?thesis by simp
qed

lemma quiet_liveness_failure_ends:
  assumes "IsQuiet opts" and "\<not> IsFlood opts" and "\<not> writeControl_ok t"
    and "currentPacketSize opts s = Some b"
  shows "pingTick opts a s t
           = ([HttpGet a, WriteControl False, Log LogCheckFailed], Some PeerUnreachable)"
  using assms by (simp add: pingTick_def Let_def split: prod.splits)

text \<open>
  Quiet changes nothing else. In a session with quiet = true no report is handed to
  the connection, whatever the outcomes of the measurements; the session runs the
  ticks and ends as the same session without quiet does when its report writes
  succeed: same ending, same number of measurements, same liveness checks. When flood
  is false there is one liveness check for every measurement made.
\<close>

lemma quiet_session:
  assumes "upgrade_ok io" and "readJSON io = Some msg"
    and "snd (resolvePingOptions msg) = None"
    and "IsQuiet (fst (resolvePingOptions msg))"
  shows "report_writes (fst (PingHandler io)) = []
       \<and> (\<not> IsFlood (fst (resolvePingOptions msg)) \<longrightarrow>
            length (liveness_checks (fst (PingHandler io))) = measurements (fst (PingHandler io)))
       \<and> snd (PingHandler io) = snd (PingHandler (without_quiet io msg))
       \<and> measurements (fst (PingHandler io))
           = measurements (fst (PingHandler (without_quiet io msg)))
       \<and> liveness_checks (fst (PingHandler io))
           = liveness_checks (fst (PingHandler (without_quiet io msg)))"
proof -
  let ?opts = "fst (resolvePingOptions msg)"
  let ?a = "formatAddress (PingMessage.Address msg)"
  let ?msg' = "msg\<lparr>Quiet := Some False\<rparr>"
  let ?io' = "without_quiet io msg"
  note o = handler_obs [OF assms(1-3)]
  have u': "upgrade_ok ?io'" and r': "readJSON ?io' = Some ?msg'"
    and t': "ticks ?io' = map (\<lambda>t. t\<lparr>writeJSON_ok := True\<rparr>) (ticks io)"
    using assms(1) by (simp_all add: without_quiet_def)
  have v': "snd (resolvePingOptions ?msg') = None"
    using assms(3) by (simp add: resolve_quiet_twin)
  note o' = handler_obs [OF u' r' v']
  have opts': "fst (resolvePingOptions ?msg') = ?opts\<lparr>IsQuiet := False\<rparr>"
    by (simp add: resolve_quiet_twin)
  have 1: "report_writes (fst (PingHandler io)) = []"
    using assms(4) by (simp add: o quiet_no_report_writes)
  have 2: "length (liveness_checks (fst (PingHandler io))) = measurements (fst (PingHandler io))"
    if "\<not> IsFlood ?opts"
    using assms(4) that by (simp add: o quiet_liveness_per_tick)
  from quiet_same_ticks [OF assms(4), of ?a 0 "ticks io"]
  have 3: "snd (PingHandler io) = snd (PingHandler ?io')"
    and 4: "measurements (fst (PingHandler io)) = measurements (fst (PingHandler ?io'))"
    and 5: "liveness_checks (fst (PingHandler io)) = liveness_checks (fst (PingHandler ?io'))"
    by (simp_all add: o o' opts' t')
  from 1 2 3 4 5 show ?thesis by blast
qed

lemma quiet_session_example:
  "upgrade_ok quiet_io \<and> readJSON quiet_io = Some quiet_msg
     \<and> snd (resolvePingOptions quiet_msg) = None
     \<and> IsQuiet (fst (resolvePingOptions quiet_msg))
     \<and> \<not> IsFlood (fst (resolvePingOptions quiet_msg))
     \<and> report_writes (fst (PingHandler quiet_io)) = []
     \<and> measurements (fst (PingHandler quiet_io)) = 2
     \<and> length (liveness_checks (fst (PingHandler quiet_io))) = 2
     \<and> snd (PingHandler quiet_io) = Terminated CountExhausted"
proof -
  have h1: "upgrade_ok quiet_io" and h2: "readJSON quiet_io = Some quiet_msg"
    by (simp_all add: quiet_io_def)
  have h3: "snd (resolvePingOptions quiet_msg) = None"
    by (simp add: resolve_validates quiet_msg_def no_overrides_def defaults)
  have h4: "IsQuiet (fst (resolvePingOptions quiet_msg))"
    and nf: "\<not> IsFlood (fst (resolvePingOptions quiet_msg))"
    by (simp_all add: resolve_fst quiet_msg_def no_overrides_def)
  have m: "measurements (fst (PingHandler quiet_io)) = 2" by code_simp
  have s: "snd (PingHandler quiet_io) = Terminated CountExhausted" by code_simp
  note t = quiet_session [OF h1 h2 h3 h4]
  from t have a: "report_writes (fst (PingHandler quiet_io)) = []" by (rule conjunct1)
  from t nf have b: "length (liveness_checks (fst (PingHandler quiet_io)))
      = measurements (fst (PingHandler quiet_io))" by blast
  show ?thesis using h1 h2 h3 h4 nf m s a b by simp
qed


text \<open>
  C6, as stated: on every tick on which the measurement probe fails the session emits a
  report for that tick. This fails in a quiet session: the probe of tick 1 (counted from
  0) fails, the tick is run (two measurements are made) and nothing is written.
\<close>

theorem quiet_probe_failure_unreported:
  "upgrade_ok quiet_io \<and> readJSON quiet_io = Some quiet_msg
     \<and> get_result (ticks quiet_io ! 1) = None
     \<and> measurements (fst (PingHandler quiet_io)) = 2
     \<and> report_writes (fst (PingHandler quiet_io)) = []"
  by code_simp


text \<open>
  C6, amended: a failed probe on tick \<open>k\<close> never ends the session. The session ends, or
  goes on, exactly as it does in the world where that probe succeeds: same ending, same
  number of measurements, same liveness checks, same sequence numbers reported. Unless
  quiet = true, every tick that is run hands a report to the connection, and the report
  of tick \<open>k\<close> has sequence \<open>k\<close> and success = false. The same holds of the plain
  listing, whose reports all carry success = false.
\<close>

theorem probe_failure_isolated:
  assumes "upgrade_ok io" and "readJSON io = Some msg"
    and "k < length (ticks io)" and "get_result (ticks io ! k) = None"
  shows "snd (PingHandler io) = snd (PingHandler (with_probe io k g))
       \<and> measurements (fst (PingHandler io))
           = measurements (fst (PingHandler (with_probe io k g)))
       \<and> liveness_checks (fst (PingHandler io))
           = liveness_checks (fst (PingHandler (with_probe io k g)))
       \<and> map Sequence (report_writes (fst (PingHandler io)))
           = map Sequence (report_writes (fst (PingHandler (with_probe io k g))))
       \<and> (\<not> IsQuiet (fst (resolvePingOptions msg)) \<longrightarrow>
            length (report_writes (fst (PingHandler io))) = measurements (fst (PingHandler io)))
       \<and> (k < length (report_writes (fst (PingHandler io))) \<longrightarrow>
            Sequence (report_writes (fst (PingHandler io)) ! k) = of_nat k
            \<and> \<not> Success (report_writes (fst (PingHandler io)) ! k))
       \<and> snd (PingHandler_plain io) = snd (PingHandler_plain (with_probe io k g))
       \<and> measurements (fst (PingHandler_plain io))
           = measurements (fst (PingHandler_plain (with_probe io k g)))
       \<and> map Success (report_writes (fst (PingHandler_plain io)))
           = replicate (measurements (fst (PingHandler_plain io))) False"
proof -
  let ?io' = "with_probe io k g"
  let ?opts = "fst (resolvePingOptions msg)"
  let ?a = "formatAddress (PingMessage.Address msg)"
  have u': "upgrade_ok ?io'" and r': "readJSON ?io' = Some msg"
    using assms(1,2) by simp_all
  have e: "map (\<lambda>t. t\<lparr>get_result := None\<rparr>) (ticks ?io')
      = map (\<lambda>t. t\<lparr>get_result := None\<rparr>) (ticks io)"
    by simp
  have A: "snd (PingHandler io) = snd (PingHandler ?io')
       \<and> measurements (fst (PingHandler io)) = measurements (fst (PingHandler ?io'))
       \<and> liveness_checks (fst (PingHandler io)) = liveness_checks (fst (PingHandler ?io'))
       \<and> map Sequence (report_writes (fst (PingHandler io)))
           = map Sequence (report_writes (fst (PingHandler ?io')))
       \<and> (\<not> IsQuiet ?opts \<longrightarrow>
            length (report_writes (fst (PingHandler io))) = measurements (fst (PingHandler io)))"
  proof (cases "snd (resolvePingOptions msg)")
    case (Some err)
    from handler_invalid [OF assms(1,2) Some] handler_invalid [OF u' r' Some]
    show ?thesis by simp
  next
    case None
    note o = handler_obs [OF assms(1,2) None]
    note o' = handler_obs [OF u' r' None]
    from probe_outcome_irrelevant [OF e, of ?opts ?a 0]
      nonquiet_report_per_tick [of ?opts ?a 0 "ticks io"]
    show ?thesis by (simp add: o o')
  qed
  have B: "Sequence (report_writes (fst (PingHandler io)) ! k) = of_nat k
            \<and> \<not> Success (report_writes (fst (PingHandler io)) ! k)"
    if "k < length (report_writes (fst (PingHandler io)))"
    using handler_report_writes_nth(1,4) [OF assms(2) that] assms(4) by simp
  have C: "snd (PingHandler_plain io) = snd (PingHandler_plain ?io')
       \<and> measurements (fst (PingHandler_plain io)) = measurements (fst (PingHandler_plain ?io'))
       \<and> map Success (report_writes (fst (PingHandler_plain io)))
           = replicate (measurements (fst (PingHandler_plain io))) False"
    using plain_probe_outcome_irrelevant [OF e, of ?a 0]
    by (simp add: plain_handler_obs [OF assms(1,2)] plain_handler_obs [OF u' r']
        plain_reports_unsuccessful)
  from A B C show ?thesis by blast
qed

theorem probe_failure_isolated_witness:
  "upgrade_ok sweep_io \<and> readJSON sweep_io = Some sweep_msg
     \<and> 1 < length (ticks sweep_io) \<and> get_result (ticks sweep_io ! 1) = None
     \<and> \<not> IsQuiet (fst (resolvePingOptions sweep_msg))
     \<and> length (report_writes (fst (PingHandler sweep_io))) = 3
     \<and> measurements (fst (PingHandler sweep_io)) = 3
     \<and> Sequence (report_writes (fst (PingHandler sweep_io)) ! 1) = 1
     \<and> \<not> Success (report_writes (fst (PingHandler sweep_io)) ! 1)
     \<and> snd (PingHandler sweep_io) = Terminated CountExhausted"
proof -
  have h1: "upgrade_ok sweep_io" and h2: "readJSON sweep_io = Some sweep_msg"
    and h3: "1 < length (ticks sweep_io)" and h4: "get_result (ticks sweep_io ! 1) = None"
    by (simp_all add: sweep_io_def fail_tick_def)
  have nq: "\<not> IsQuiet (fst (resolvePingOptions sweep_msg))"
    by (simp add: resolve_fst sweep_msg_def no_overrides_def)
  have l: "length (report_writes (fst (PingHandler sweep_io))) = 3" by code_simp
  have s: "snd (PingHandler sweep_io) = Terminated CountExhausted" by code_simp
  note t = probe_failure_isolated [OF h1 h2 h3 h4, of "Some 1500"]
  from t nq have m: "length (report_writes (fst (PingHandler sweep_io)))
      = measurements (fst (PingHandler sweep_io))" by blast
  from t l have r: "Sequence (report_writes (fst (PingHandler sweep_io)) ! 1) = of_nat 1
      \<and> \<not> Success (report_writes (fst (PingHandler sweep_io)) ! 1)" by simp
  show ?thesis using h1 h2 h3 h4 nq l s m r by simp
qed


text \<open>
  C1. The claim promises, for every session with a resolved count \<open>c > 0\<close> and quiet =
  false, \<open>c\<close> reports and then \<open>CountExhausted\<close>. The configuration with count 3 and
  interval 0 passes validation, which rejects only a negative interval; the handler then
  asks \<^verbatim>\<open>time.NewTicker\<close> for a ticker of duration 0, which panics: the session ends before
  its first tick and writes no report.
\<close>

theorem zero_interval_session_panics:
  "snd (resolvePingOptions zero_interval_msg) = None
     \<and> PingOptions.Count (fst (resolvePingOptions zero_interval_msg)) = 3
     \<and> PingOptions.Wait (fst (resolvePingOptions zero_interval_msg)) = 0
     \<and> \<not> IsQuiet (fst (resolvePingOptions zero_interval_msg))
     \<and> PingHandler zero_interval_io
         = ([Log (LogPing ''http://example.com'' 56), ConnClose],
            Terminated (Panicked NonPositiveTickerInterval))
     \<and> reports (fst (PingHandler zero_interval_io)) = []"
  by (simp add: zero_interval_io_def zero_interval_msg_def no_overrides_def PingHandler_def
      resolvePingOptions_def validatePingOptions_def defaults formatAddress_def)


text \<open>
  A second configuration that validation accepts and that ends in a panic: with
  sweepMax the largest and sweepMin the smallest \<^verbatim>\<open>int\<close>, the span
  \<open>sweepMax - sweepMin + 1\<close> wraps to 0 and \<^verbatim>\<open>%\<close> divides by zero on the first tick.
\<close>

lemma full_span_session_panics:
  "snd (resolvePingOptions full_span_msg) = None
     \<and> PingOptions.Count (fst (resolvePingOptions full_span_msg)) = 3
     \<and> \<not> IsQuiet (fst (resolvePingOptions full_span_msg))
     \<and> PingHandler full_span_io
         = ([Log (LogPing ''http://example.com'' 56), ConnClose],
            Terminated (Panicked IntegerDivideByZero))"
  by (simp add: full_span_io_def full_span_msg_def no_overrides_def PingHandler_def
      resolvePingOptions_def validatePingOptions_def defaults formatAddress_def
      pingLoop.simps pingTick_def currentPacketSize_def)


text \<open>
  Outside these two panics the count is honoured. When the ticker interval is positive
  and the sweep span is not zero, a session with a resolved count \<open>c > 0\<close> and quiet =
  false, given more than \<open>c\<close> ticks whose report writes and liveness checks succeed,
  writes exactly \<open>c\<close> reports with the sequence numbers \<open>0, \<dots>, c - 1\<close>, makes \<open>c\<close>
  measurements and ends with \<open>CountExhausted\<close>.
\<close>

lemma count_exhaustion:
  assumes "upgrade_ok io" and "readJSON io = Some msg"
    and "snd (resolvePingOptions msg) = None"
    and "0 < sint (PingOptions.Count (fst (resolvePingOptions msg)))"
    and "\<not> IsQuiet (fst (resolvePingOptions msg))"
    and "0 < sint (PingOptions.Wait (fst (resolvePingOptions msg)) * 1000000000)"
    and "currentPacketSize (fst (resolvePingOptions msg)) 0 \<noteq> None"
    and "nat (sint (PingOptions.Count (fst (resolvePingOptions msg)))) < length (ticks io)"
    and "\<forall>t \<in> set (take (nat (sint (PingOptions.Count (fst (resolvePingOptions msg))))) (ticks io)).
           writeJSON_ok t \<and> (IsFlood (fst (resolvePingOptions msg)) \<or> writeControl_ok t)"
  shows "snd (PingHandler io) = Terminated CountExhausted
       \<and> length (reports (fst (PingHandler io)))
           = nat (sint (PingOptions.Count (fst (resolvePingOptions msg))))
       \<and> map Sequence (reports (fst (PingHandler io)))
           = map of_nat [0..<nat (sint (PingOptions.Count (fst (resolvePingOptions msg))))]
       \<and> measurements (fst (PingHandler io))
           = nat (sint (PingOptions.Count (fst (resolvePingOptions msg))))"
proof -
  let ?opts = "fst (resolvePingOptions msg)"
  let ?c = "nat (sint (PingOptions.Count ?opts))"
  note l = handler_loop [OF assms(1-3,6)]
  have "snd (pingLoop ?opts (formatAddress (PingMessage.Address msg)) (of_nat 0) (ticks io))
          = Terminated CountExhausted
       \<and> measurements (fst (pingLoop ?opts (formatAddress (PingMessage.Address msg)) (of_nat 0)
           (ticks io))) = ?c - 0
       \<and> map Sequence (report_writes (fst (pingLoop ?opts
           (formatAddress (PingMessage.Address msg)) (of_nat 0) (ticks io))))
           = (if IsQuiet ?opts then [] else map of_nat [0..<?c])
       \<and> reports (fst (pingLoop ?opts (formatAddress (PingMessage.Address msg)) (of_nat 0)
           (ticks io)))
           = report_writes (fst (pingLoop ?opts (formatAddress (PingMessage.Address msg))
               (of_nat 0) (ticks io)))"
    using assms(4,7,8,9) by (intro loop_count_exhausted) simp_all
  then have "snd (PingHandler io) = Terminated CountExhausted"
    and "measurements (fst (PingHandler io)) = ?c"
    and m: "map Sequence (reports (fst (PingHandler io))) = map of_nat [0..<?c]"
    using assms(5) by (simp_all add: l)
  moreover from m have "length (reports (fst (PingHandler io))) = ?c"
    using length_map [of Sequence "reports (fst (PingHandler io))"] by simp
  ultimately show ?thesis by simp
qed


end
